theory Spec2Isabelle
  imports Main "HOL-Library.AList" "HOL-Library.List_Lexorder" "HOL-Library.Char_ord"
begin

section \<open>Values shared by the services\<close>

text \<open>
  The services of \<^verbatim>\<open>src/ipc/services\<close> are asynchronous TypeScript functions that act on
  four stores: the relational store (apps, messages), the file system, the git repository of
  each app directory, and the table of running child processes. A thrown \<^verbatim>\<open>Error\<close> is
  modelled by its message; a service returns \<open>Inl message\<close> where the source throws and
  \<open>Inr value\<close> where it returns, together with the stores as the call leaves them.
  Calls to the logger change none of the stores and are left out.
\<close>

type_synonym error = string

subsection \<open>Template strings\<close>

text \<open>\<^verbatim>\<open>`${appId}`\<close> prints a number in decimal.\<close>

definition digit_char :: "nat \<Rightarrow> char" where
  "digit_char d = ''0123456789'' ! d"

fun show_nat :: "nat \<Rightarrow> string" where
  "show_nat n = (if 10 \<le> n then show_nat (n div 10) @ [digit_char (n mod 10)] else [digit_char n])"

declare show_nat.simps [simp del]

definition show_number :: "int \<Rightarrow> string" where
  "show_number i = (if 0 \<le> i then show_nat (nat i) else CHR ''-'' # show_nat (nat (- i)))"

definition startsWith :: "string \<Rightarrow> string \<Rightarrow> bool" where
  "startsWith s p \<longleftrightarrow> take (length p) s = p"

subsection \<open>Paths: \<^verbatim>\<open>node:path\<close> on POSIX\<close>

text \<open>
  \<^verbatim>\<open>path.join\<close> concatenates its non-empty arguments with \<^verbatim>\<open>/\<close> and normalises the
  result: empty and \<^verbatim>\<open>.\<close> segments are dropped, a \<^verbatim>\<open>..\<close> segment removes the segment
  before it (and is kept at the front of a relative path only), a trailing separator is
  kept. \<^verbatim>\<open>path.dirname\<close> cuts the path at its last separator that follows a segment.
\<close>

fun splitOn :: "char \<Rightarrow> string \<Rightarrow> string list" where
  "splitOn c [] = [[]]"
| "splitOn c (x # xs) =
     (case splitOn c xs of
        [] \<Rightarrow> [[x]]
      | s # ss \<Rightarrow> if x = c then [] # s # ss else (x # s) # ss)"

fun joinWith :: "string \<Rightarrow> string list \<Rightarrow> string" where
  "joinWith sep [] = []"
| "joinWith sep [s] = s"
| "joinWith sep (s # t # ss) = s @ sep @ joinWith sep (t # ss)"

fun normalizeSegments :: "bool \<Rightarrow> string list \<Rightarrow> string list \<Rightarrow> string list" where
  "normalizeSegments allowAboveRoot res [] = res"
| "normalizeSegments allowAboveRoot res (seg # segs) =
     (if seg = [] \<or> seg = ''.'' then normalizeSegments allowAboveRoot res segs
      else if seg = ''..'' then
        (if res \<noteq> [] \<and> last res \<noteq> ''..''
         then normalizeSegments allowAboveRoot (butlast res) segs
         else if allowAboveRoot then normalizeSegments allowAboveRoot (res @ [''..'']) segs
         else normalizeSegments allowAboveRoot res segs)
      else normalizeSegments allowAboveRoot (res @ [seg]) segs)"

definition path_normalize :: "string \<Rightarrow> string" where
  "path_normalize p =
     (if p = [] then ''.''
      else
        let isAbsolute = (hd p = CHR ''/'');
            trailingSeparator = (last p = CHR ''/'');
            body = joinWith ''/'' (normalizeSegments (\<not> isAbsolute) [] (splitOn CHR ''/'' p))
        in if body = [] then (if isAbsolute then ''/'' else if trailingSeparator then ''./'' else ''.'')
           else (if isAbsolute then ''/'' else []) @ body @ (if trailingSeparator then ''/'' else []))"

definition path_join :: "string \<Rightarrow> string \<Rightarrow> string" where
  "path_join a b =
     (if a = [] \<and> b = [] then ''.''
      else if a = [] then path_normalize b
      else if b = [] then path_normalize a
      else path_normalize (a @ ''/'' @ b))"

definition path_dirname :: "string \<Rightarrow> string" where
  "path_dirname p =
     (if p = [] then ''.''
      else
        let hasRoot = (hd p = CHR ''/'');
            r = dropWhile (\<lambda>c. c \<noteq> CHR ''/'') (dropWhile (\<lambda>c. c = CHR ''/'') (rev (tl p)))
        in if r = [] then (if hasRoot then ''/'' else ''.'')
           else if hasRoot \<and> tl r = [] then ''//''
           else hd p # rev (tl r))"

text \<open>
  The directories \<^verbatim>\<open>mkdir(p, {recursive: true})\<close> makes sure of: \<open>p\<close> and every directory
  above it. The first argument bounds the walk; a path has no more ancestors than characters.
\<close>

fun dirname_chain :: "string \<Rightarrow> string \<Rightarrow> string list" where
  "dirname_chain [] p = [p]"
| "dirname_chain (c # fuel) p =
     (let d = path_dirname p in if d = p then [p] else p # dirname_chain fuel d)"

definition path_ancestors :: "string \<Rightarrow> string list" where
  "path_ancestors p = dirname_chain p p"

section \<open>The stores\<close>

subsection \<open>Relational store\<close>

record app_row =
  app_id :: int
  app_name :: string
  app_path :: string

record message_row =
  msg_id :: int
  msg_chatId :: int
  msg_content :: string
  msg_commitHash :: "string option"

subsection \<open>Git repository (isomorphic-git)\<close>

text \<open>
  A commit carries its message, author, author timestamp, parent (none for the first commit
  of a history; the services only ever create commits with at most one parent) and its tree,
  a list of file paths with their blob contents. A repository holds its commit objects by
  identifier, its branches, \<^verbatim>\<open>HEAD\<close> (on a branch, or detached at a commit) and the index.
\<close>

type_synonym oid = string
type_synonym tree = "(string \<times> string) list"

record commit_obj =
  c_message :: string
  c_author :: string
  c_timestamp :: int
  c_parent :: "oid option"
  c_tree :: tree

datatype head_ref = OnBranch string | Detached oid

record repo =
  objects :: "(oid \<times> commit_obj) list"
  branches :: "(string \<times> oid) list"
  HEAD :: head_ref
  index :: tree

text \<open>The \<^verbatim>\<open>Version\<close> of \<^verbatim>\<open>ipc_types\<close>, as \<^verbatim>\<open>listVersionsService\<close> builds it.\<close>

record version =
  oid :: string
  message :: string
  timestamp :: int

subsection \<open>The world of the version and file services\<close>

text \<open>
  \<open>files\<close> are the regular files by absolute path, \<open>dirs\<close> the directories, \<open>repos\<close> the
  repositories by the directory that holds their \<^verbatim>\<open>.git\<close>. \<open>now\<close> is the clock
  (\<^verbatim>\<open>Date.now()\<close>, milliseconds), \<open>gitAuthor\<close> what \<^verbatim>\<open>getGitAuthor()\<close> answers and
  \<open>hash_object\<close> the hash that names a new commit object.
\<close>

record world =
  apps :: "app_row list"
  messages :: "message_row list"
  files :: "(string \<times> string) list"
  dirs :: "string list"
  repos :: "(string \<times> repo) list"
  now :: int
  appBase :: string
  gitAuthor :: string
  hash_object :: "commit_obj \<Rightarrow> oid"

text \<open>\<^verbatim>\<open>db.query.apps.findFirst({ where: eq(apps.id, appId) })\<close>\<close>

definition findApp :: "'a world_scheme \<Rightarrow> int \<Rightarrow> app_row option" where
  "findApp w appId = find (\<lambda>a. app_id a = appId) (apps w)"

text \<open>
  Modelled from the spec: \<^verbatim>\<open>getDyadAppPath\<close> of \<^verbatim>\<open>paths/paths\<close> is not among the sources.
  The spec (section 3) says an app has "a relative path used to derive an absolute sandboxed
  directory"; the directory is the path joined to a base directory of the installation.
\<close>

definition getDyadAppPath :: "'a world_scheme \<Rightarrow> string \<Rightarrow> string" where
  "getDyadAppPath w p = path_join (appBase w) p"

subsection \<open>File system (\<^verbatim>\<open>node:fs\<close>)\<close>

definition fs_existsSync :: "'a world_scheme \<Rightarrow> string \<Rightarrow> bool" where
  "fs_existsSync w p \<longleftrightarrow>
     p \<in> set (map fst (files w)) \<or> p \<in> set (dirs w) \<or>
     p \<in> set (map (\<lambda>r. path_join (fst r) ''.git'') (repos w))"

definition fs_mkdir_recursive :: "'a world_scheme \<Rightarrow> string \<Rightarrow> error + 'a world_scheme" where
  "fs_mkdir_recursive w p =
     (if list_ex (\<lambda>q. q \<in> set (map fst (files w))) (path_ancestors p)
      then Inl (''EEXIST: file already exists, mkdir '' @ p)
      else Inr (w\<lparr>dirs := remdups (dirs w @ path_ancestors p)\<rparr>))"

definition fs_writeFile :: "'a world_scheme \<Rightarrow> string \<Rightarrow> string \<Rightarrow> error + 'a world_scheme" where
  "fs_writeFile w p content =
     (if p \<in> set (dirs w) then Inl (''EISDIR: illegal operation on a directory, open '' @ p)
      else if path_dirname p \<notin> set (dirs w)
      then Inl (''ENOENT: no such file or directory, open '' @ p)
      else Inr (w\<lparr>files := AList.update p content (files w)\<rparr>))"

definition fs_unlink :: "'a world_scheme \<Rightarrow> string \<Rightarrow> error + 'a world_scheme" where
  "fs_unlink w p =
     (if p \<in> set (map fst (files w)) then Inr (w\<lparr>files := AList.delete p (files w)\<rparr>)
      else Inl (''ENOENT: no such file or directory, unlink '' @ p))"

definition fs_readFileSync :: "'a world_scheme \<Rightarrow> string \<Rightarrow> error + string" where
  "fs_readFileSync w p =
     (case map_of (files w) p of
        None \<Rightarrow> Inl (''ENOENT: no such file or directory, open '' @ p)
      | Some contents \<Rightarrow> Inr contents)"

subsection \<open>Git operations\<close>

text \<open>
  Each operation fails with a \<^verbatim>\<open>NotFoundError\<close> where the directory holds no repository
  or the reference or object it needs is missing, and changes nothing then.
\<close>

definition git_repo :: "'a world_scheme \<Rightarrow> string \<Rightarrow> error + repo" where
  "git_repo w dir =
     (case map_of (repos w) dir of
        None \<Rightarrow> Inl (''NotFoundError: Could not find HEAD.'')
      | Some r \<Rightarrow> Inr r)"

definition resolve_head :: "repo \<Rightarrow> oid option" where
  "resolve_head r = (case HEAD r of OnBranch b \<Rightarrow> map_of (branches r) b | Detached c \<Rightarrow> Some c)"

text \<open>
  A reference is \<^verbatim>\<open>HEAD\<close>, the name of a branch, or the identifier of a commit. (A branch
  is never named by an identifier: identifiers are hashes.)
\<close>

definition resolve_ref :: "repo \<Rightarrow> string \<Rightarrow> oid option" where
  "resolve_ref r ref =
     (if ref = ''HEAD'' then resolve_head r
      else
        (case map_of (branches r) ref of
           Some c \<Rightarrow> Some c
         | None \<Rightarrow> if ref \<in> set (map fst (objects r)) then Some ref else None))"

definition read_commit :: "repo \<Rightarrow> string \<Rightarrow> error + oid \<times> commit_obj" where
  "read_commit r ref =
     (case resolve_ref r ref of
        None \<Rightarrow> Inl (''NotFoundError: Could not find '' @ ref @ ''.'')
      | Some c \<Rightarrow>
          (case map_of (objects r) c of
             None \<Rightarrow> Inl (''NotFoundError: Could not find '' @ c @ ''.'')
           | Some obj \<Rightarrow> Inr (c, obj)))"

text \<open>
  \<^verbatim>\<open>git.log({ dir, depth })\<close> starts at the commit \<^verbatim>\<open>HEAD\<close> resolves to and follows the
  parents, for at most \<open>depth\<close> commits.
\<close>

fun log_walk :: "nat \<Rightarrow> (oid \<times> commit_obj) list \<Rightarrow> oid \<Rightarrow> error + (oid \<times> commit_obj) list" where
  "log_walk 0 objs c = Inr []"
| "log_walk (Suc n) objs c =
     (case map_of objs c of
        None \<Rightarrow> Inl (''NotFoundError: Could not find '' @ c @ ''.'')
      | Some obj \<Rightarrow>
          (case c_parent obj of
             None \<Rightarrow> Inr [(c, obj)]
           | Some p \<Rightarrow>
               (case log_walk n objs p of
                  Inl e \<Rightarrow> Inl e
                | Inr rest \<Rightarrow> Inr ((c, obj) # rest))))"

definition git_log :: "'a world_scheme \<Rightarrow> string \<Rightarrow> nat \<Rightarrow> error + (oid \<times> commit_obj) list" where
  "git_log w dir depth =
     (case git_repo w dir of
        Inl e \<Rightarrow> Inl e
      | Inr r \<Rightarrow>
          (case resolve_head r of
             None \<Rightarrow> Inl (''NotFoundError: Could not find HEAD.'')
           | Some c \<Rightarrow> log_walk depth (objects r) c))"

text \<open>
  \<^verbatim>\<open>git.checkout({ dir, ref, force: true })\<close>: the files of the commit's tree are written
  over the working tree, the paths of the index that the tree lacks are deleted, the index
  becomes the tree, and \<^verbatim>\<open>HEAD\<close> moves: onto the branch when \<open>ref\<close> names one, detached at
  the commit otherwise. Files that are neither in the index nor in the tree stay.
\<close>

definition git_checkout :: "'a world_scheme \<Rightarrow> string \<Rightarrow> string \<Rightarrow> error + 'a world_scheme" where
  "git_checkout w dir ref =
     (case git_repo w dir of
        Inl e \<Rightarrow> Inl e
      | Inr r \<Rightarrow>
          (case read_commit r ref of
             Inl e \<Rightarrow> Inl e
           | Inr (c, obj) \<Rightarrow>
               let t = AList.clearjunk (c_tree obj);
                   gone = filter (\<lambda>fp. map_of t fp = None) (map fst (index r));
                   kept = foldr (\<lambda>fp. AList.delete (path_join dir fp)) gone (files w);
                   written = foldr (\<lambda>(fp, blob). AList.update (path_join dir fp) blob) t kept;
                   made = concat (map (\<lambda>(fp, blob). path_ancestors (path_dirname (path_join dir fp))) t);
                   head = (if ref \<noteq> ''HEAD'' \<and> map_of (branches r) ref \<noteq> None
                           then OnBranch ref else Detached c)
               in Inr (w\<lparr>files := written, dirs := remdups (dirs w @ made),
                         repos := AList.update dir (r\<lparr>HEAD := head, index := t\<rparr>) (repos w)\<rparr>)))"

text \<open>
  \<^verbatim>\<open>git.statusMatrix({ dir, ref })\<close>: one row per path of the commit's tree, the working
  tree or the index. The head status is 1 when the commit has the path, else 0; the working
  tree status is 0 when the file is absent, 1 when it is identical to the commit's, else 2;
  the stage status is 0 when the index lacks the path, 1 when its entry is identical to the
  commit's, 2 when identical to the working tree's, else 3.

  The rows come in the order of the library's walk over the three trees: the entries of a
  directory by name, and a path before the paths below it. That is the order of the paths
  read as lists of segments, so \<^verbatim>\<open>src\<close> comes before \<^verbatim>\<open>src/lib/b.ts\<close>, which comes
  before \<^verbatim>\<open>src-old\<close>.

  The worlds of this model hold no ignore rules (\<^verbatim>\<open>.gitignore\<close>). Where a project has
  rules, the library leaves a path that they ignore out of the matrix when neither the
  commit nor the index has it, and \<^verbatim>\<open>git.add\<close> passes over the files they ignore.
\<close>

type_synonym status_row = "string \<times> nat \<times> nat \<times> nat"

definition workdir_paths :: "'a world_scheme \<Rightarrow> string \<Rightarrow> string list" where
  "workdir_paths w dir =
     map (drop (length dir + 1)) (filter (\<lambda>p. startsWith p (dir @ ''/'')) (map fst (files w)))"

definition status_row :: "tree \<Rightarrow> tree \<Rightarrow> (string \<Rightarrow> string option) \<Rightarrow> string \<Rightarrow> status_row" where
  "status_row t idx wd fp =
     (fp,
      (if map_of t fp = None then 0 else 1),
      (case wd fp of None \<Rightarrow> 0 | Some c \<Rightarrow> if map_of t fp = Some c then 1 else 2),
      (case map_of idx fp of
         None \<Rightarrow> 0
       | Some c \<Rightarrow> if map_of t fp = Some c then 1 else if wd fp = Some c then 2 else 3))"

definition walk_order :: "string list \<Rightarrow> string list" where
  "walk_order fps = sort_key (splitOn CHR ''/'') (remdups fps)"

definition git_statusMatrix :: "'a world_scheme \<Rightarrow> string \<Rightarrow> string \<Rightarrow> error + status_row list" where
  "git_statusMatrix w dir ref =
     (case git_repo w dir of
        Inl e \<Rightarrow> Inl e
      | Inr r \<Rightarrow>
          (case read_commit r ref of
             Inl e \<Rightarrow> Inl e
           | Inr (c, obj) \<Rightarrow>
               Inr (map (status_row (c_tree obj) (index r) (\<lambda>fp. map_of (files w) (path_join dir fp)))
                     (walk_order (map fst (c_tree obj) @ workdir_paths w dir @ map fst (index r))))))"

text \<open>\<^verbatim>\<open>git.readBlob({ dir, oid, filepath })\<close>, with the identifier of a commit.\<close>

definition git_readBlob :: "'a world_scheme \<Rightarrow> string \<Rightarrow> string \<Rightarrow> string \<Rightarrow> error + string" where
  "git_readBlob w dir c filepath =
     (case git_repo w dir of
        Inl e \<Rightarrow> Inl e
      | Inr r \<Rightarrow>
          (case map_of (objects r) c of
             None \<Rightarrow> Inl (''NotFoundError: Could not find '' @ c @ ''.'')
           | Some obj \<Rightarrow>
               (case map_of (c_tree obj) filepath of
                  None \<Rightarrow> Inl (''NotFoundError: Could not find file or directory found at '' @ c @ '':'' @ filepath)
                | Some blob \<Rightarrow> Inr blob)))"

text \<open>\<^verbatim>\<open>git.remove({ dir, filepath })\<close> takes the path out of the index.\<close>

definition git_remove :: "'a world_scheme \<Rightarrow> string \<Rightarrow> string \<Rightarrow> error + 'a world_scheme" where
  "git_remove w dir filepath =
     (case git_repo w dir of
        Inl e \<Rightarrow> Inl e
      | Inr r \<Rightarrow> Inr (w\<lparr>repos := AList.update dir (r\<lparr>index := AList.delete filepath (index r)\<rparr>) (repos w)\<rparr>))"

text \<open>
  \<^verbatim>\<open>git.add({ dir, filepath })\<close> stages the file at the path, or every file below it when
  it is a directory, with its present content; it fails when nothing is at the path. It
  never takes a path out of the index.
\<close>

definition git_add :: "'a world_scheme \<Rightarrow> string \<Rightarrow> string \<Rightarrow> error + 'a world_scheme" where
  "git_add w dir filepath =
     (case git_repo w dir of
        Inl e \<Rightarrow> Inl e
      | Inr r \<Rightarrow>
          let target = path_join dir filepath;
              found = filter (\<lambda>(p, c). p = target \<or> startsWith p (target @ ''/''))
                        (AList.clearjunk (files w))
          in if found = [] \<and> target \<notin> set (dirs w)
             then Inl (''NotFoundError: Could not find '' @ filepath @ ''.'')
             else Inr (w\<lparr>repos := AList.update dir
                         (r\<lparr>index := AList.clearjunk
                              (map (\<lambda>(p, c). (drop (length dir + 1) p, c)) found @ index r)\<rparr>)
                         (repos w)\<rparr>))"

text \<open>
  \<^verbatim>\<open>git.commit({ dir, message, author })\<close> writes a commit of the index whose parent is
  the commit \<^verbatim>\<open>HEAD\<close> resolves to, and moves the branch \<^verbatim>\<open>HEAD\<close> is on (or the detached
  \<^verbatim>\<open>HEAD\<close>) to it. An object that is already stored under the identifier is left as it is.
  The message is stored normalised: without carriage returns, without the newlines at its
  start and at its end, and with one newline after it.
\<close>

definition normalizeNewlines :: "string \<Rightarrow> string" where
  "normalizeNewlines str =
     (let noReturns = filter (\<lambda>c. c \<noteq> CHR 0x0D) str;
          noLeading = dropWhile (\<lambda>c. c = CHR 0x0A) noReturns;
          noTrailing = rev (dropWhile (\<lambda>c. c = CHR 0x0A) (rev noLeading))
      in noTrailing @ [CHR 0x0A])"

definition git_commit :: "'a world_scheme \<Rightarrow> string \<Rightarrow> string \<Rightarrow> string \<Rightarrow> error + oid \<times> 'a world_scheme" where
  "git_commit w dir msg author =
     (case git_repo w dir of
        Inl e \<Rightarrow> Inl e
      | Inr r \<Rightarrow>
          let obj = \<lparr>c_message = normalizeNewlines msg, c_author = author, c_timestamp = now w div 1000,
                     c_parent = resolve_head r, c_tree = index r\<rparr>;
              c = hash_object w obj;
              objs = (if c \<in> set (map fst (objects r)) then objects r else objects r @ [(c, obj)]);
              r' = (case HEAD r of
                      OnBranch b \<Rightarrow> r\<lparr>objects := objs, branches := AList.update b c (branches r)\<rparr>
                    | Detached d \<Rightarrow> r\<lparr>objects := objs, HEAD := Detached c\<rparr>)
          in Inr (c, w\<lparr>repos := AList.update dir r' (repos w)\<rparr>))"

section \<open>\<^verbatim>\<open>version_service.ts\<close>\<close>

subsection \<open>\<^verbatim>\<open>listVersionsService\<close>\<close>

definition toVersion :: "oid \<times> commit_obj \<Rightarrow> version" where
  "toVersion commit =
     \<lparr>oid = fst commit, message = c_message (snd commit), timestamp = c_timestamp (snd commit)\<rparr>"

definition listVersionsService :: "'a world_scheme \<Rightarrow> int \<Rightarrow> error + version list" where
  "listVersionsService w appId =
     (case findApp w appId of
        None \<Rightarrow> Inl ''App not found''
      | Some app \<Rightarrow>
          let appPath = getDyadAppPath w (app_path app) in
          if \<not> fs_existsSync w (path_join appPath ''.git'') then Inr []
          else
            (case git_log w appPath 1000 of
               Inl e \<Rightarrow> Inl (''Failed to list versions: '' @ e)
             | Inr commits \<Rightarrow> Inr (map toVersion commits)))"

subsection \<open>\<^verbatim>\<open>revertVersionService\<close>\<close>

text \<open>
  The body of the loop over the status matrix (lines 86 to 140), for one row. The world it
  returns with an error is the one the failing step found: nothing is rolled back.
\<close>

definition revert_path ::
  "string \<Rightarrow> string \<Rightarrow> 'a world_scheme \<Rightarrow> status_row \<Rightarrow> (error + unit) \<times> 'a world_scheme" where
  "revert_path appPath previousVersionId w row =
     (case row of (filepath, headStatus, workdirStatus, stageStatus) \<Rightarrow>
        let fullPath = path_join appPath filepath in
        if headStatus = 1 then
          (if workdirStatus \<noteq> 1 then
             (case git_readBlob w appPath previousVersionId filepath of
                Inl e \<Rightarrow> (Inl e, w)
              | Inr blob \<Rightarrow>
                  (case fs_mkdir_recursive w (path_dirname fullPath) of
                     Inl e \<Rightarrow> (Inl e, w)
                   | Inr w1 \<Rightarrow>
                       (case fs_writeFile w1 fullPath blob of
                          Inl e \<Rightarrow> (Inl e, w1)
                        | Inr w2 \<Rightarrow> (Inr (), w2))))
           else (Inr (), w))
        else if headStatus = 0 \<and> workdirStatus \<noteq> 0 then
          (if fs_existsSync w fullPath then
             (case fs_unlink w fullPath of
                Inl e \<Rightarrow> (Inl e, w)
              | Inr w1 \<Rightarrow>
                  (case git_remove w1 appPath filepath of
                     Inl removeError \<Rightarrow> (Inr (), w1)
                   | Inr w2 \<Rightarrow> (Inr (), w2)))
           else (Inr (), w))
        else if headStatus = 1 \<and> workdirStatus = 2 then
          (case git_readBlob w appPath previousVersionId filepath of
             Inl e \<Rightarrow> (Inl e, w)
           | Inr blob \<Rightarrow>
               (case fs_writeFile w fullPath blob of
                  Inl e \<Rightarrow> (Inl e, w)
                | Inr w1 \<Rightarrow> (Inr (), w1)))
        else (Inr (), w))"

fun revert_paths ::
  "string \<Rightarrow> string \<Rightarrow> 'a world_scheme \<Rightarrow> status_row list \<Rightarrow> (error + unit) \<times> 'a world_scheme" where
  "revert_paths appPath previousVersionId w [] = (Inr (), w)"
| "revert_paths appPath previousVersionId w (row # matrix) =
     (case revert_path appPath previousVersionId w row of
        (Inl e, w1) \<Rightarrow> (Inl e, w1)
      | (Inr u, w1) \<Rightarrow> revert_paths appPath previousVersionId w1 matrix)"

text \<open>
  The two-branch policy of the spec (section 4.5, step 3, first two items), for comparison:
  restore a path that the target has and the working tree lacks or has differently, delete a
  path that the target lacks and the working tree has.
\<close>

definition revert_path_two_branch ::
  "string \<Rightarrow> string \<Rightarrow> 'a world_scheme \<Rightarrow> status_row \<Rightarrow> (error + unit) \<times> 'a world_scheme" where
  "revert_path_two_branch appPath previousVersionId w row =
     (case row of (filepath, headStatus, workdirStatus, stageStatus) \<Rightarrow>
        let fullPath = path_join appPath filepath in
        if headStatus = 1 \<and> workdirStatus \<noteq> 1 then
          (case git_readBlob w appPath previousVersionId filepath of
             Inl e \<Rightarrow> (Inl e, w)
           | Inr blob \<Rightarrow>
               (case fs_mkdir_recursive w (path_dirname fullPath) of
                  Inl e \<Rightarrow> (Inl e, w)
                | Inr w1 \<Rightarrow>
                    (case fs_writeFile w1 fullPath blob of
                       Inl e \<Rightarrow> (Inl e, w1)
                     | Inr w2 \<Rightarrow> (Inr (), w2))))
        else if headStatus = 0 \<and> workdirStatus \<noteq> 0 then
          (if fs_existsSync w fullPath then
             (case fs_unlink w fullPath of
                Inl e \<Rightarrow> (Inl e, w)
              | Inr w1 \<Rightarrow>
                  (case git_remove w1 appPath filepath of
                     Inl removeError \<Rightarrow> (Inr (), w1)
                   | Inr w2 \<Rightarrow> (Inr (), w2)))
           else (Inr (), w))
        else (Inr (), w))"

fun revert_paths_two_branch ::
  "string \<Rightarrow> string \<Rightarrow> 'a world_scheme \<Rightarrow> status_row list \<Rightarrow> (error + unit) \<times> 'a world_scheme" where
  "revert_paths_two_branch appPath previousVersionId w [] = (Inr (), w)"
| "revert_paths_two_branch appPath previousVersionId w (row # matrix) =
     (case revert_path_two_branch appPath previousVersionId w row of
        (Inl e, w1) \<Rightarrow> (Inl e, w1)
      | (Inr u, w1) \<Rightarrow> revert_paths_two_branch appPath previousVersionId w1 matrix)"

text \<open>
  Lines 69 to 158: check out \<^verbatim>\<open>main\<close>, compute the matrix against the target, run the
  loop, stage everything, commit. It returns the identifier of the new commit.
\<close>

definition revert_commit ::
  "'a world_scheme \<Rightarrow> string \<Rightarrow> string \<Rightarrow> (error + oid) \<times> 'a world_scheme" where
  "revert_commit w appPath previousVersionId =
     (case git_checkout w appPath ''main'' of
        Inl e \<Rightarrow> (Inl e, w)
      | Inr w1 \<Rightarrow>
          (case git_statusMatrix w1 appPath previousVersionId of
             Inl e \<Rightarrow> (Inl e, w1)
           | Inr matrix \<Rightarrow>
               (case revert_paths appPath previousVersionId w1 matrix of
                  (Inl e, w2) \<Rightarrow> (Inl e, w2)
                | (Inr u, w2) \<Rightarrow>
                    (case git_add w2 appPath ''.'' of
                       Inl e \<Rightarrow> (Inl e, w2)
                     | Inr w3 \<Rightarrow>
                         (case git_commit w3 appPath
                                 (''Reverted all changes back to version '' @ previousVersionId)
                                 (gitAuthor w3) of
                            Inl e \<Rightarrow> (Inl e, w3)
                          | Inr (commitHash, w4) \<Rightarrow> (Inr commitHash, w4))))))"

text \<open>
  Lines 162 to 200: the first message tagged with the target, and the deletion of the
  messages of its chat that have a greater id.
\<close>

definition messageWithCommit :: "'a world_scheme \<Rightarrow> string \<Rightarrow> message_row option" where
  "messageWithCommit w previousVersionId =
     find (\<lambda>m. msg_commitHash m = Some previousVersionId) (messages w)"

definition revert_messages :: "'a world_scheme \<Rightarrow> string \<Rightarrow> 'a world_scheme" where
  "revert_messages w previousVersionId =
     (case messageWithCommit w previousVersionId of
        Some m \<Rightarrow>
          let chatId = msg_chatId m;
              messagesToDelete = filter (\<lambda>x. msg_chatId x = chatId \<and> msg_id x > msg_id m) (messages w)
          in if length messagesToDelete > 0
             then w\<lparr>messages := filter (\<lambda>x. \<not> (msg_chatId x = chatId \<and> msg_id x > msg_id m)) (messages w)\<rparr>
             else w
      | None \<Rightarrow> w)"

definition revertVersionService ::
  "'a world_scheme \<Rightarrow> int \<Rightarrow> string \<Rightarrow> (error + bool) \<times> 'a world_scheme" where
  "revertVersionService w appId previousVersionId =
     (case findApp w appId of
        None \<Rightarrow> (Inl ''App not found'', w)
      | Some app \<Rightarrow>
          let appPath = getDyadAppPath w (app_path app) in
          (case revert_commit w appPath previousVersionId of
             (Inl e, w1) \<Rightarrow> (Inl (''Failed to revert version: '' @ e), w1)
           | (Inr commitHash, w1) \<Rightarrow> (Inr True, revert_messages w1 previousVersionId)))"

subsection \<open>\<^verbatim>\<open>checkoutVersionService\<close>\<close>

definition checkoutVersionService ::
  "'a world_scheme \<Rightarrow> int \<Rightarrow> string \<Rightarrow> (error + bool) \<times> 'a world_scheme" where
  "checkoutVersionService w appId versionId =
     (case findApp w appId of
        None \<Rightarrow> (Inl ''App not found'', w)
      | Some app \<Rightarrow>
          let appPath = getDyadAppPath w (app_path app) in
          (case git_checkout w appPath versionId of
             Inl e \<Rightarrow> (Inl (''Failed to checkout version: '' @ e), w)
           | Inr w1 \<Rightarrow> (Inr True, w1)))"

section \<open>\<^verbatim>\<open>file_service.ts\<close>\<close>

definition readAppFileService :: "'a world_scheme \<Rightarrow> int \<Rightarrow> string \<Rightarrow> error + string" where
  "readAppFileService w appId filePath =
     (case findApp w appId of
        None \<Rightarrow> Inl ''App not found''
      | Some app \<Rightarrow>
          let appPath = getDyadAppPath w (app_path app);
              fullPath = path_join appPath filePath
          in if \<not> startsWith fullPath appPath then Inl ''Invalid file path''
             else if \<not> fs_existsSync w fullPath then Inl ''File not found''
             else
               (case fs_readFileSync w fullPath of
                  Inl e \<Rightarrow> Inl ''Failed to read file''
                | Inr contents \<Rightarrow> Inr contents))"

text \<open>Lines 79 to 107 of \<^verbatim>\<open>editAppFileService\<close>: the write and the commit, inside \<^verbatim>\<open>try\<close>.\<close>

definition edit_write_commit ::
  "'a world_scheme \<Rightarrow> string \<Rightarrow> string \<Rightarrow> string \<Rightarrow> string \<Rightarrow> (error + bool) \<times> 'a world_scheme" where
  "edit_write_commit w appPath fullPath filePath content =
     (case fs_writeFile w fullPath content of
        Inl e \<Rightarrow> (Inl e, w)
      | Inr w1 \<Rightarrow>
          if fs_existsSync w1 (path_join appPath ''.git'') then
            (case git_add w1 appPath filePath of
               Inl e \<Rightarrow> (Inl e, w1)
             | Inr w2 \<Rightarrow>
                 (case git_commit w2 appPath (''Updated '' @ filePath) (gitAuthor w2) of
                    Inl e \<Rightarrow> (Inl e, w2)
                  | Inr (c, w3) \<Rightarrow> (Inr True, w3)))
          else (Inr True, w1))"

definition editAppFileService ::
  "'a world_scheme \<Rightarrow> int \<Rightarrow> string \<Rightarrow> string \<Rightarrow> (error + bool) \<times> 'a world_scheme" where
  "editAppFileService w appId filePath content =
     (case findApp w appId of
        None \<Rightarrow> (Inl ''App not found'', w)
      | Some app \<Rightarrow>
          let appPath = getDyadAppPath w (app_path app);
              fullPath = path_join appPath filePath
          in if \<not> startsWith fullPath appPath then (Inl ''Invalid file path'', w)
             else
               (case fs_mkdir_recursive w (path_dirname fullPath) of
                  Inl e \<Rightarrow> (Inl e, w)
                | Inr w1 \<Rightarrow>
                    (case edit_write_commit w1 appPath fullPath filePath content of
                       (Inl e, w2) \<Rightarrow> (Inl (''Failed to write file: '' @ e), w2)
                     | (Inr r, w2) \<Rightarrow> (Inr r, w2))))"

section \<open>\<^verbatim>\<open>app_execution_service.ts\<close>\<close>

subsection \<open>Processes, the registry and the output channel\<close>

datatype output_type = Stdout | Stderr | Info | ClientError

record output_event =
  ev_type :: output_type
  ev_message :: string
  ev_appId :: int
  ev_timestamp :: int

text \<open>
  A \<^verbatim>\<open>ChildProcess\<close> object: the command and directory it was spawned with, its \<^verbatim>\<open>pid\<close>
  (undefined when the spawn failed), and \<^verbatim>\<open>exitCode\<close> and \<^verbatim>\<open>signalCode\<close>, both
  \<^verbatim>\<open>null\<close> while it runs.
\<close>

record child_process =
  command :: string
  cwd :: string
  pid :: "nat option"
  exitCode :: "int option"
  signalCode :: "string option"

text \<open>An entry of \<^verbatim>\<open>runningApps\<close>: the process object, by reference, and its generation.\<close>

record running_app =
  process :: nat
  processId :: nat

text \<open>
  The world of the execution service adds to the stores the registry \<open>runningApps\<close>, the
  counter of generations, the process objects by reference (\<open>procs\<close>, with the next free
  reference), the events sent on the channel \<^verbatim>\<open>app:output\<close>, the ports that some process
  is bound to, and what the operating system will answer: the pid of the next spawn (none
  when it fails, with the text it prints on stderr) and the processes that do not terminate
  when asked to.
\<close>

record app_world = world +
  runningApps :: "int \<Rightarrow> running_app option"
  processCounter :: nat
  procs :: "nat \<Rightarrow> child_process"
  next_process :: nat
  sent :: "output_event list"
  busy_ports :: "nat list"
  spawn_pid :: "nat option"
  spawn_stderr :: string
  kill_refused :: "nat list"

text \<open>\<^verbatim>\<open>event.sender.send("app:output", { type, message, appId, timestamp: Date.now() })\<close>\<close>

definition send_output :: "app_world \<Rightarrow> output_type \<Rightarrow> string \<Rightarrow> int \<Rightarrow> app_world" where
  "send_output w ty msg appId =
     w\<lparr>sent := sent w @ [\<lparr>ev_type = ty, ev_message = msg, ev_appId = appId, ev_timestamp = now w\<rparr>]\<rparr>"

text \<open>\<^verbatim>\<open>spawn(command, [], { cwd, shell: true, stdio: "pipe", detached: false })\<close>\<close>

definition spawn :: "app_world \<Rightarrow> string \<Rightarrow> string \<Rightarrow> nat \<times> app_world" where
  "spawn w cmd dir =
     (next_process w,
      w\<lparr>procs := (procs w)(next_process w :=
             \<lparr>command = cmd, cwd = dir, pid = spawn_pid w, exitCode = None, signalCode = None\<rparr>),
        next_process := next_process w + 1\<rparr>)"

text \<open>\<^verbatim>\<open>kill-port\<close> rejects when no process is bound to the port.\<close>

definition killPort :: "app_world \<Rightarrow> nat \<Rightarrow> error + app_world" where
  "killPort w port =
     (if port \<in> set (busy_ports w) then Inr (w\<lparr>busy_ports := removeAll port (busy_ports w)\<rparr>)
      else Inl ''No process running on port'')"

text \<open>
  Modelled from the spec: \<^verbatim>\<open>utils/process_manager\<close> and \<^verbatim>\<open>utils/lock_utils\<close> are not among
  the sources. Section 4.3: the counter gives "a freshly incremented generation";
  \<^verbatim>\<open>removeAppIfCurrentProcess\<close> "removes the entry only if the stored handle identity equals
  the passed handle". Section 4.4: \<^verbatim>\<open>killProcess\<close> terminates the process, and a
  "termination failure is reported as an error". Section 4.1: \<^verbatim>\<open>withLock\<close> returns the
  "result of operation", and operations on one key run one at a time; in this model calls
  do not overlap, so it runs the operation.
\<close>

definition processCounter_increment :: "app_world \<Rightarrow> nat \<times> app_world" where
  "processCounter_increment w = (processCounter w + 1, w\<lparr>processCounter := processCounter w + 1\<rparr>)"

definition removeAppIfCurrentProcess :: "app_world \<Rightarrow> int \<Rightarrow> nat \<Rightarrow> app_world" where
  "removeAppIfCurrentProcess w appId p =
     (case runningApps w appId of
        None \<Rightarrow> w
      | Some entry \<Rightarrow> if process entry = p then w\<lparr>runningApps := (runningApps w)(appId := None)\<rparr> else w)"

definition killProcess :: "app_world \<Rightarrow> nat \<Rightarrow> error + app_world" where
  "killProcess w p =
     (if p \<in> set (kill_refused w) then Inl ''Failed to kill process''
      else Inr (w\<lparr>procs := (procs w)(p := (procs w p)\<lparr>signalCode := Some ''SIGTERM''\<rparr>)\<rparr>))"

definition withLock :: "int \<Rightarrow> (app_world \<Rightarrow> 'r \<times> app_world) \<Rightarrow> app_world \<Rightarrow> 'r \<times> app_world" where
  "withLock key operation w = operation w"

subsection \<open>\<^verbatim>\<open>killProcessOnPort\<close>, \<^verbatim>\<open>executeAppLocalNode\<close>\<close>

definition killProcessOnPort :: "app_world \<Rightarrow> nat \<Rightarrow> app_world" where
  "killProcessOnPort w port = (case killPort w port of Inr w1 \<Rightarrow> w1 | Inl err \<Rightarrow> w)"

text \<open>
  The listeners that \<^verbatim>\<open>executeAppLocalNode\<close> attaches run when the process later writes
  output, closes or fails; they are not part of the call. Where the spawn gave no pid, the
  call waits for the error event of the failed spawn and throws.
\<close>

definition executeAppLocalNode :: "app_world \<Rightarrow> string \<Rightarrow> int \<Rightarrow> (error + unit) \<times> app_world" where
  "executeAppLocalNode w appPath appId =
     (let cmd = ''(pnpm install && pnpm run dev --port 32100) || (npm install && npm run dev -- --port 32100)'';
          (p, w1) = spawn w cmd appPath
      in if pid (procs w1 p) = None then
           (let errorOutput = spawn_stderr w1 in
            (Inl (''Failed to spawn process for app '' @ show_number appId @ ''. Error: '' @
                  (if errorOutput \<noteq> [] then errorOutput else ''Unknown spawn error'')), w1))
         else
           (let (currentProcessId, w2) = processCounter_increment w1
            in (Inr (), w2\<lparr>runningApps := (runningApps w2)(appId \<mapsto>
                             \<lparr>process = p, processId = currentProcessId\<rparr>)\<rparr>)))"

subsection \<open>\<^verbatim>\<open>runAppService\<close>\<close>

record service_result =
  success :: bool
  res_message :: "string option"

text \<open>The handler of \<^verbatim>\<open>catch\<close>, lines 173 to 190.\<close>

definition run_failed :: "app_world \<Rightarrow> int \<Rightarrow> error \<Rightarrow> (error + service_result) \<times> app_world" where
  "run_failed w appId e =
     (let w1 = (if runningApps w appId \<noteq> None \<and>
                   map_option processId (runningApps w appId) = Some (processCounter w)
                then w\<lparr>runningApps := (runningApps w)(appId := None)\<rparr> else w);
          w2 = send_output w1 ClientError (''Failed to run app: '' @ e) appId
      in (Inl (''Failed to run app '' @ show_number appId @ '': '' @ e), w2))"

definition runAppService :: "app_world \<Rightarrow> int \<Rightarrow> (error + service_result) \<times> app_world" where
  "runAppService w0 appId = withLock appId (\<lambda>w.
     if runningApps w appId \<noteq> None then
       (let w1 = send_output w Info ''App is already running.'' appId
        in (Inr \<lparr>success = True, res_message = Some ''App already running.''\<rparr>, w1))
     else
       (case findApp w appId of
          None \<Rightarrow> (Inl ''App not found'', w)
        | Some app \<Rightarrow>
            let appPath = getDyadAppPath w (app_path app);
                w1 = killProcessOnPort w 32100
            in (case executeAppLocalNode w1 appPath appId of
                  (Inr u, w2) \<Rightarrow> (Inr \<lparr>success = True, res_message = None\<rparr>, w2)
                | (Inl e, w2) \<Rightarrow> run_failed w2 appId e))) w0"

subsection \<open>\<^verbatim>\<open>stopAppService\<close>\<close>

definition stopAppService :: "app_world \<Rightarrow> int \<Rightarrow> (error + service_result) \<times> app_world" where
  "stopAppService w0 appId = withLock appId (\<lambda>w.
     case runningApps w appId of
       None \<Rightarrow> (Inr \<lparr>success = True, res_message = Some ''App not running.''\<rparr>, w)
     | Some appInfo \<Rightarrow>
         let p = process appInfo in
         if exitCode (procs w p) \<noteq> None \<or> signalCode (procs w p) \<noteq> None then
           (Inr \<lparr>success = True, res_message = Some ''Process already exited.''\<rparr>,
            w\<lparr>runningApps := (runningApps w)(appId := None)\<rparr>)
         else
           (case killProcess w p of
              Inr w1 \<Rightarrow>
                let w2 = removeAppIfCurrentProcess w1 appId p;
                    w3 = killProcessOnPort w2 32100
                in (Inr \<lparr>success = True, res_message = None\<rparr>, w3)
            | Inl e \<Rightarrow>
                let w1 = removeAppIfCurrentProcess w appId p
                in (Inl (''Failed to stop app '' @ show_number appId @ '': '' @ e), w1))) w0"

section \<open>Histories and example worlds\<close>

text \<open>A list of commits in which each is followed by its parent.\<close>

fun is_chain :: "(oid \<times> commit_obj) list \<Rightarrow> bool" where
  "is_chain [] = True"
| "is_chain [x] = True"
| "is_chain (x # y # ys) = (c_parent (snd x) = Some (fst y) \<and> is_chain (y # ys))"


text \<open>
  An app \<open>demo\<close> in \<^verbatim>\<open>/apps/demo\<close> with two commits on \<^verbatim>\<open>main\<close>, an untracked file
  \<^verbatim>\<open>e.ts\<close>, and two chats; the first two messages of chat 1 are tagged with the commits.
  The commit messages end with the newline that \<^verbatim>\<open>git.commit\<close> stores.
\<close>

definition demo_app :: app_row where
  "demo_app = \<lparr>app_id = 1, app_name = ''demo'', app_path = ''demo''\<rparr>"

definition c1 :: commit_obj where
  "c1 = \<lparr>c_message = ''init\<newline>'', c_author = ''dyad'', c_timestamp = 100, c_parent = None,
          c_tree = [(''a.ts'', ''A1''), (''src/b.ts'', ''B1'')]\<rparr>"

definition c2 :: commit_obj where
  "c2 = \<lparr>c_message = ''edit\<newline>'', c_author = ''dyad'', c_timestamp = 200, c_parent = Some ''c1'',
          c_tree = [(''a.ts'', ''A2''), (''d.ts'', ''D2'')]\<rparr>"

definition demo_repo :: repo where
  "demo_repo = \<lparr>objects = [(''c1'', c1), (''c2'', c2)], branches = [(''main'', ''c2'')],
                HEAD = OnBranch ''main'', index = [(''a.ts'', ''A2''), (''d.ts'', ''D2'')]\<rparr>"

definition m1 :: message_row where
  "m1 = \<lparr>msg_id = 1, msg_chatId = 1, msg_content = ''make it'', msg_commitHash = Some ''c1''\<rparr>"

definition m2 :: message_row where
  "m2 = \<lparr>msg_id = 2, msg_chatId = 1, msg_content = ''change it'', msg_commitHash = Some ''c2''\<rparr>"

definition m3 :: message_row where
  "m3 = \<lparr>msg_id = 3, msg_chatId = 2, msg_content = ''hello'', msg_commitHash = None\<rparr>"

definition m4 :: message_row where
  "m4 = \<lparr>msg_id = 4, msg_chatId = 1, msg_content = ''thanks'', msg_commitHash = None\<rparr>"

definition demo_world :: world where
  "demo_world =
     \<lparr>apps = [demo_app],
      messages = [m1, m2, m3, m4],
      files = [(''/apps/demo/a.ts'', ''A2''), (''/apps/demo/d.ts'', ''D2''), (''/apps/demo/e.ts'', ''E'')],
      dirs = [''/'', ''/apps'', ''/apps/demo''],
      repos = [(''/apps/demo'', demo_repo)],
      now = 5000000, appBase = ''/apps'', gitAuthor = ''dyad'',
      hash_object = (\<lambda>c. CHR ''r'' # (case c_parent c of None \<Rightarrow> [] | Some p \<Rightarrow> p))\<rparr>"

text \<open>The same app right after \<^verbatim>\<open>git.init\<close>: a repository, and no commit yet.\<close>

definition unborn_world :: world where
  "unborn_world =
     demo_world\<lparr>repos := [(''/apps/demo'',
        \<lparr>objects = [], branches = [], HEAD = OnBranch ''main'', index = []\<rparr>)]\<rparr>"

text \<open>
  The execution service's world: nothing runs, port 32100 is taken by an orphan, and the
  next spawn fails. In \<open>running_world\<close> the app runs as process 0 of generation 4; in
  \<open>exited_world\<close> that process has exited with code 0.
\<close>

definition idle_world :: app_world where
  "idle_world =
     \<lparr>apps = [demo_app], messages = [], files = [], dirs = [], repos = [],
      now = 5000000, appBase = ''/apps'', gitAuthor = ''dyad'', hash_object = (\<lambda>c. ''r''),
      runningApps = Map.empty, processCounter = 3,
      procs = (\<lambda>p. \<lparr>command = [], cwd = [], pid = None, exitCode = None, signalCode = None\<rparr>),
      next_process = 0, sent = [], busy_ports = [32100], spawn_pid = None, spawn_stderr = [],
      kill_refused = []\<rparr>"

definition running_world :: app_world where
  "running_world =
     idle_world\<lparr>runningApps := [1 \<mapsto> \<lparr>process = 0, processId = 4\<rparr>], processCounter := 4,
       procs := (procs idle_world)(0 := \<lparr>command = ''dev'', cwd = ''/apps/demo'', pid = Some 77,
                                          exitCode = None, signalCode = None\<rparr>),
       next_process := 1\<rparr>"

definition exited_world :: app_world where
  "exited_world =
     running_world\<lparr>procs := (procs running_world)(0 := \<lparr>command = ''dev'', cwd = ''/apps/demo'',
                         pid = Some 77, exitCode = Some 0, signalCode = None\<rparr>)\<rparr>"

text \<open>
  The demo app after a preview of its first version: the world that
  \<^verbatim>\<open>checkoutVersionService\<close> leaves.
\<close>

definition previewed_world :: world where
  "previewed_world = snd (checkoutVersionService demo_world 1 ''c1'')"

text \<open>
  Two worlds have the same history in a directory when its repository has the same commits,
  branches and \<^verbatim>\<open>HEAD\<close> in both, and the apps, the clock, the hash and the author agree.
\<close>

definition same_history :: "'a world_scheme \<Rightarrow> 'a world_scheme \<Rightarrow> string \<Rightarrow> bool" where
  "same_history w w' p \<longleftrightarrow>
     (\<exists>r r'. git_repo w p = Inr r \<and> git_repo w' p = Inr r' \<and>
        objects r' = objects r \<and> branches r' = branches r \<and> HEAD r' = HEAD r) \<and>
     apps w' = apps w \<and> appBase w' = appBase w \<and> now w' = now w \<and>
     hash_object w' = hash_object w \<and> gitAuthor w' = gitAuthor w"




text \<open>
  The demo app with another history: its first version keeps \<^verbatim>\<open>b.ts\<close> in the directory
  \<^verbatim>\<open>src/lib\<close>, its second version has a file \<^verbatim>\<open>src\<close> where that directory was. The
  working tree is the second version's, with the untracked file \<^verbatim>\<open>e.ts\<close>. Then the world
  after the checkout of \<^verbatim>\<open>main\<close>, and the status matrix against the first version.
\<close>

definition layout1 :: commit_obj where
  "layout1 = \<lparr>c_message = ''init\<newline>'', c_author = ''dyad'', c_timestamp = 100, c_parent = None,
               c_tree = [(''a.ts'', ''A1''), (''src/lib/b.ts'', ''B1'')]\<rparr>"

definition layout2 :: commit_obj where
  "layout2 = \<lparr>c_message = ''flatten\<newline>'', c_author = ''dyad'', c_timestamp = 200, c_parent = Some ''c1'',
               c_tree = [(''a.ts'', ''A2''), (''d.ts'', ''D2''), (''src'', ''S2'')]\<rparr>"

definition replaced_world :: world where
  "replaced_world =
     demo_world\<lparr>
       files := [(''/apps/demo/a.ts'', ''A2''), (''/apps/demo/d.ts'', ''D2''),
                 (''/apps/demo/e.ts'', ''E''), (''/apps/demo/src'', ''S2'')],
       repos := [(''/apps/demo'',
                  \<lparr>objects = [(''c1'', layout1), (''c2'', layout2)], branches = [(''main'', ''c2'')],
                   HEAD = OnBranch ''main'',
                   index = [(''a.ts'', ''A2''), (''d.ts'', ''D2''), (''src'', ''S2'')]\<rparr>)]\<rparr>"



section \<open>Evaluation of the example worlds\<close>

lemma log_walk_numeral:
  "log_walk (numeral k) objs c =
     (case map_of objs c of
        None \<Rightarrow> Inl (''NotFoundError: Could not find '' @ c @ ''.'')
      | Some obj \<Rightarrow>
          (case c_parent obj of
             None \<Rightarrow> Inr [(c, obj)]
           | Some p \<Rightarrow>
               (case log_walk (pred_numeral k) objs p of
                  Inl e \<Rightarrow> Inl e
                | Inr rest \<Rightarrow> Inr ((c, obj) # rest))))"
  by (simp add: numeral_eq_Suc)

lemmas path_simps = path_join_def path_normalize_def path_dirname_def path_ancestors_def startsWith_def

lemmas fs_simps = fs_existsSync_def fs_mkdir_recursive_def fs_writeFile_def fs_unlink_def fs_readFileSync_def

lemmas git_simps = git_repo_def resolve_head_def resolve_ref_def read_commit_def git_log_def
  git_checkout_def git_statusMatrix_def status_row_def workdir_paths_def git_readBlob_def
  git_remove_def git_add_def git_commit_def

lemmas demo_simps = demo_world_def demo_repo_def demo_app_def c1_def c2_def m1_def m2_def m3_def m4_def

lemma demo_findApp: "findApp demo_world 1 = Some demo_app"
  by (simp add: findApp_def demo_world_def demo_app_def)

lemma demo_appPath: "getDyadAppPath demo_world (app_path demo_app) = ''/apps/demo''"
  by (simp add: getDyadAppPath_def demo_world_def demo_app_def path_simps)

lemma demo_git_dir: "path_join ''/apps/demo'' ''.git'' = ''/apps/demo/.git''"
  by (simp add: path_simps)


section \<open>The execution service\<close>

text \<open>
  Claim C4. For every app id that has an entry in the registry, \<^verbatim>\<open>runAppService\<close>
  returns success with the message "App already running."; the world it leaves differs
  from the one it found only by one informational event appended to the channel, so no
  process was spawned and the registry entry is as it was.
\<close>

theorem runAppService_already_running:
  assumes "runningApps w appId = Some entry"
  shows "runAppService w appId =
           (Inr \<lparr>success = True, res_message = Some ''App already running.''\<rparr>,
            w\<lparr>sent := sent w @ [\<lparr>ev_type = Info, ev_message = ''App is already running.'',
                                  ev_appId = appId, ev_timestamp = now w\<rparr>]\<rparr>)"
  using assms by (simp add: runAppService_def withLock_def send_output_def)

theorem runAppService_already_running_witness:
  "runningApps running_world 1 = Some \<lparr>process = 0, processId = 4\<rparr> \<and>
   fst (runAppService running_world 1) = Inr \<lparr>success = True, res_message = Some ''App already running.''\<rparr> \<and>
   sent (snd (runAppService running_world 1)) =
     [\<lparr>ev_type = Info, ev_message = ''App is already running.'', ev_appId = 1, ev_timestamp = 5000000\<rparr>] \<and>
   runningApps (snd (runAppService running_world 1)) = runningApps running_world \<and>
   next_process (snd (runAppService running_world 1)) = next_process running_world \<and>
   procs (snd (runAppService running_world 1)) = procs running_world"
  using runAppService_already_running [of running_world 1 "\<lparr>process = 0, processId = 4\<rparr>"]
  by (simp add: running_world_def idle_world_def)

lemma stop_absent:
  "runningApps w appId = None \<Longrightarrow>
   stopAppService w appId = (Inr \<lparr>success = True, res_message = Some ''App not running.''\<rparr>, w)"
  by (simp add: stopAppService_def withLock_def)

lemma killProcess_registry: "killProcess w p = Inr w1 \<Longrightarrow> runningApps w1 = runningApps w"
  by (auto simp: killProcess_def split: if_splits)

lemma killProcessOnPort_registry: "runningApps (killProcessOnPort w port) = runningApps w"
  by (auto simp: killProcessOnPort_def killPort_def split: if_splits)

lemma removeApp_current:
  "runningApps w appId = Some entry \<Longrightarrow>
   runningApps (removeAppIfCurrentProcess w appId (process entry)) appId = None"
  by (simp add: removeAppIfCurrentProcess_def)

lemma stop_leaves_no_entry: "runningApps (snd (stopAppService w appId)) appId = None"
proof (cases "runningApps w appId")
  case None
  then show ?thesis by (simp add: stop_absent)
next
  case (Some entry)
  show ?thesis
  proof (cases "exitCode (procs w (process entry)) \<noteq> None \<or> signalCode (procs w (process entry)) \<noteq> None")
    case True
    with Some show ?thesis by (auto simp add: stopAppService_def withLock_def Let_def)
  next
    case False
    show ?thesis
    proof (cases "killProcess w (process entry)")
      case (Inl e)
      with Some False show ?thesis
        by (simp add: stopAppService_def withLock_def Let_def removeApp_current)
    next
      case (Inr w1)
      then have "runningApps w1 appId = Some entry"
        using Some by (simp add: killProcess_registry)
      with Some False Inr show ?thesis
        by (simp add: stopAppService_def withLock_def Let_def removeApp_current killProcessOnPort_registry)
    qed
  qed
qed

text \<open>
  Claim C5. \<^verbatim>\<open>stopAppService\<close> on an app id without a registry entry returns success
  ("App not running.") and leaves the world as it was; on an entry whose process has an exit
  code or a signal code it removes the entry, changes nothing else and returns success; and
  a second stop right after any stop returns success and changes nothing.
\<close>

theorem stopAppService_idempotent:
  "(runningApps w appId = None \<longrightarrow>
      stopAppService w appId = (Inr \<lparr>success = True, res_message = Some ''App not running.''\<rparr>, w))
   \<and> (\<forall>entry. runningApps w appId = Some entry \<and>
         (exitCode (procs w (process entry)) \<noteq> None \<or> signalCode (procs w (process entry)) \<noteq> None) \<longrightarrow>
         stopAppService w appId =
           (Inr \<lparr>success = True, res_message = Some ''Process already exited.''\<rparr>,
            w\<lparr>runningApps := (runningApps w)(appId := None)\<rparr>))
   \<and> stopAppService (snd (stopAppService w appId)) appId =
        (Inr \<lparr>success = True, res_message = Some ''App not running.''\<rparr>, snd (stopAppService w appId))"
proof (intro conjI allI impI)
  assume "runningApps w appId = None"
  then show "stopAppService w appId = (Inr \<lparr>success = True, res_message = Some ''App not running.''\<rparr>, w)"
    by (rule stop_absent)
next
  fix entry
  assume "runningApps w appId = Some entry \<and>
         (exitCode (procs w (process entry)) \<noteq> None \<or> signalCode (procs w (process entry)) \<noteq> None)"
  then show "stopAppService w appId =
           (Inr \<lparr>success = True, res_message = Some ''Process already exited.''\<rparr>,
            w\<lparr>runningApps := (runningApps w)(appId := None)\<rparr>)"
    by (auto simp add: stopAppService_def withLock_def Let_def)
next
  show "stopAppService (snd (stopAppService w appId)) appId =
        (Inr \<lparr>success = True, res_message = Some ''App not running.''\<rparr>, snd (stopAppService w appId))"
    by (rule stop_absent) (rule stop_leaves_no_entry)
qed

theorem stopAppService_idempotent_witness:
  "runningApps exited_world 1 = Some \<lparr>process = 0, processId = 4\<rparr> \<and>
   exitCode (procs exited_world 0) = Some 0 \<and>
   stopAppService exited_world 1 =
     (Inr \<lparr>success = True, res_message = Some ''Process already exited.''\<rparr>,
      exited_world\<lparr>runningApps := (runningApps exited_world)(1 := None)\<rparr>) \<and>
   runningApps idle_world 1 = None \<and>
   stopAppService idle_world 1 = (Inr \<lparr>success = True, res_message = Some ''App not running.''\<rparr>, idle_world) \<and>
   stopAppService (snd (stopAppService running_world 1)) 1 =
     (Inr \<lparr>success = True, res_message = Some ''App not running.''\<rparr>, snd (stopAppService running_world 1))"
proof -
  have e: "runningApps exited_world 1 = Some \<lparr>process = 0, processId = 4\<rparr>"
    "exitCode (procs exited_world 0) = Some 0"
    by (simp_all add: exited_world_def running_world_def idle_world_def)
  have i: "runningApps idle_world 1 = None"
    by (simp add: idle_world_def)
  from e i stopAppService_idempotent [of exited_world 1] stopAppService_idempotent [of idle_world 1]
    stopAppService_idempotent [of running_world 1]
  show ?thesis by simp
qed

lemma run_failed_no_entry:
  "runningApps v appId = None \<Longrightarrow>
     run_failed v appId cause =
       (Inl (''Failed to run app '' @ show_number appId @ '': '' @ cause),
        send_output v ClientError (''Failed to run app: '' @ cause) appId)"
  by (simp add: run_failed_def)

lemma executeAppLocalNode_failure:
  "executeAppLocalNode w appPath appId = (Inl e, w') \<Longrightarrow>
     spawn_pid w = None \<and> runningApps w' = runningApps w \<and> processCounter w' = processCounter w \<and>
     sent w' = sent w \<and> now w' = now w \<and>
     e = ''Failed to spawn process for app '' @ show_number appId @ ''. Error: '' @
         (if spawn_stderr w \<noteq> [] then spawn_stderr w else ''Unknown spawn error'')"
  by (auto simp: executeAppLocalNode_def spawn_def processCounter_increment_def Let_def split: if_splits prod.splits)

lemma executeAppLocalNode_no_pid:
  "spawn_pid w = None \<Longrightarrow> \<exists>e w'. executeAppLocalNode w appPath appId = (Inl e, w')"
  by (auto simp: executeAppLocalNode_def spawn_def Let_def)

lemma killProcessOnPort_frame:
  "sent (killProcessOnPort w port) = sent w \<and> now (killProcessOnPort w port) = now w \<and>
   processCounter (killProcessOnPort w port) = processCounter w \<and>
   spawn_pid (killProcessOnPort w port) = spawn_pid w \<and> spawn_stderr (killProcessOnPort w port) = spawn_stderr w"
  by (auto simp: killProcessOnPort_def killPort_def split: if_splits)

text \<open>
  Claim C6, as stated, has the handler remove the registry entry that was registered for
  the failed spawn. No failing run registers one: \<^verbatim>\<open>executeAppLocalNode\<close> throws before it
  takes a generation from the counter and before \<^verbatim>\<open>runningApps.set\<close>. In the example the
  spawn gives no pid and \<^verbatim>\<open>runAppService\<close> fails; in the world that \<^verbatim>\<open>executeAppLocalNode\<close>
  leaves to the handler the app has no entry and the counter stands where it stood, so the
  guard of the removal is false and nothing is removed.
\<close>

theorem runAppService_setup_failure_counterexample:
  "fst (runAppService idle_world 1) =
     Inl ''Failed to run app 1: Failed to spawn process for app 1. Error: Unknown spawn error'' \<and>
   getDyadAppPath idle_world (app_path demo_app) = ''/apps/demo'' \<and>
   fst (executeAppLocalNode (killProcessOnPort idle_world 32100) ''/apps/demo'' 1) =
     Inl ''Failed to spawn process for app 1. Error: Unknown spawn error'' \<and>
   runningApps (snd (executeAppLocalNode (killProcessOnPort idle_world 32100) ''/apps/demo'' 1)) 1 = None \<and>
   processCounter idle_world = 3 \<and>
   processCounter (snd (executeAppLocalNode (killProcessOnPort idle_world 32100) ''/apps/demo'' 1)) = 3"
proof -
  have n: "show_number 1 = ''1''"
    by (simp add: show_number_def show_nat.simps digit_char_def)
  have p: "getDyadAppPath idle_world (app_path demo_app) = ''/apps/demo''"
    by (simp add: getDyadAppPath_def idle_world_def demo_app_def path_simps)
  have k: "killProcessOnPort idle_world 32100 = idle_world\<lparr>busy_ports := []\<rparr>"
    by (simp add: killProcessOnPort_def killPort_def idle_world_def)
  have x: "fst (executeAppLocalNode (idle_world\<lparr>busy_ports := []\<rparr>) ''/apps/demo'' 1) =
             Inl ''Failed to spawn process for app 1. Error: Unknown spawn error''"
    "runningApps (snd (executeAppLocalNode (idle_world\<lparr>busy_ports := []\<rparr>) ''/apps/demo'' 1)) 1 = None"
    "processCounter (snd (executeAppLocalNode (idle_world\<lparr>busy_ports := []\<rparr>) ''/apps/demo'' 1)) = 3"
    by (simp_all add: executeAppLocalNode_def spawn_def Let_def idle_world_def n)
  have r: "fst (runAppService idle_world 1) =
     Inl ''Failed to run app 1: Failed to spawn process for app 1. Error: Unknown spawn error''"
    by (simp add: runAppService_def withLock_def findApp_def getDyadAppPath_def path_simps
          killProcessOnPort_def killPort_def executeAppLocalNode_def spawn_def run_failed_def
          send_output_def Let_def idle_world_def demo_app_def n)
  have c: "processCounter idle_world = 3"
    by (simp add: idle_world_def)
  from r p x c show ?thesis
    unfolding k by simp
qed

text \<open>
  Claim C6, amended. For a known app: when it is not running and the spawn gives no pid,
  \<^verbatim>\<open>runAppService\<close> fails. Whenever it fails, the app was not running and the spawn gave no
  pid; \<^verbatim>\<open>executeAppLocalNode\<close> has failed without registering an entry and without taking
  a generation, so the handler finds nothing to remove: the world the call leaves is the one
  \<^verbatim>\<open>executeAppLocalNode\<close> left, with exactly one \<^verbatim>\<open>client-error\<close> event sent after
  it. The registry and the counter are as before the call, the registry has no entry for
  the app, and the error raised wraps the cause.
\<close>

theorem runAppService_setup_failure:
  assumes app: "findApp w appId = Some app"
  shows "(runningApps w appId = None \<and> spawn_pid w = None \<longrightarrow>
            (\<exists>e w'. runAppService w appId = (Inl e, w')))
       \<and> (\<forall>e w'. runAppService w appId = (Inl e, w') \<longrightarrow>
            runningApps w appId = None \<and> spawn_pid w = None \<and>
            (\<exists>cause w2.
               executeAppLocalNode (killProcessOnPort w 32100) (getDyadAppPath w (app_path app)) appId =
                 (Inl cause, w2) \<and>
               cause = ''Failed to spawn process for app '' @ show_number appId @ ''. Error: '' @
                  (if spawn_stderr w \<noteq> [] then spawn_stderr w else ''Unknown spawn error'') \<and>
               runningApps w2 = runningApps w \<and> processCounter w2 = processCounter w \<and>
               w' = send_output w2 ClientError (''Failed to run app: '' @ cause) appId \<and>
               e = ''Failed to run app '' @ show_number appId @ '': '' @ cause \<and>
               sent w' = sent w @ [\<lparr>ev_type = ClientError, ev_message = ''Failed to run app: '' @ cause,
                                     ev_appId = appId, ev_timestamp = now w\<rparr>]) \<and>
            runningApps w' = runningApps w \<and> processCounter w' = processCounter w \<and>
            runningApps w' appId = None)"
proof -
  let ?w1 = "killProcessOnPort w 32100"
  let ?appPath = "getDyadAppPath w (app_path app)"
  have first: "\<exists>e w'. runAppService w appId = (Inl e, w')"
    if idle: "runningApps w appId = None" and np: "spawn_pid w = None"
  proof -
    from np have "spawn_pid ?w1 = None" by (simp add: killProcessOnPort_frame)
    from executeAppLocalNode_no_pid[OF this]
    obtain e w2 where ex: "executeAppLocalNode ?w1 ?appPath appId = (Inl e, w2)"
      by blast
    from executeAppLocalNode_failure[OF ex] idle have "runningApps w2 appId = None"
      by (simp add: killProcessOnPort_registry)
    from run_failed_no_entry[OF this] idle app ex show ?thesis
      by (simp add: runAppService_def withLock_def Let_def)
  qed
  have second: "runningApps w appId = None \<and> spawn_pid w = None \<and>
            (\<exists>cause w2.
               executeAppLocalNode ?w1 ?appPath appId = (Inl cause, w2) \<and>
               cause = ''Failed to spawn process for app '' @ show_number appId @ ''. Error: '' @
                  (if spawn_stderr w \<noteq> [] then spawn_stderr w else ''Unknown spawn error'') \<and>
               runningApps w2 = runningApps w \<and> processCounter w2 = processCounter w \<and>
               w' = send_output w2 ClientError (''Failed to run app: '' @ cause) appId \<and>
               e = ''Failed to run app '' @ show_number appId @ '': '' @ cause \<and>
               sent w' = sent w @ [\<lparr>ev_type = ClientError, ev_message = ''Failed to run app: '' @ cause,
                                     ev_appId = appId, ev_timestamp = now w\<rparr>]) \<and>
            runningApps w' = runningApps w \<and> processCounter w' = processCounter w \<and>
            runningApps w' appId = None"
    if run: "runAppService w appId = (Inl e, w')" for e w'
  proof -
    have idle: "runningApps w appId = None"
    proof (rule ccontr)
      assume "runningApps w appId \<noteq> None"
      with run show False by (simp add: runAppService_def withLock_def Let_def)
    qed
    obtain r w2 where ex: "executeAppLocalNode ?w1 ?appPath appId = (r, w2)"
      by (cases "executeAppLocalNode ?w1 ?appPath appId")
    show ?thesis
    proof (cases r)
      case (Inr u)
      with idle app ex run show ?thesis by (simp add: runAppService_def withLock_def Let_def)
    next
      case (Inl cause)
      with ex have exf: "executeAppLocalNode ?w1 ?appPath appId = (Inl cause, w2)" by simp
      from executeAppLocalNode_failure[OF exf]
      have fl: "spawn_pid w = None" "runningApps w2 = runningApps w"
        "processCounter w2 = processCounter w" "sent w2 = sent w" "now w2 = now w"
        "cause = ''Failed to spawn process for app '' @ show_number appId @ ''. Error: '' @
           (if spawn_stderr w \<noteq> [] then spawn_stderr w else ''Unknown spawn error'')"
        by (simp_all add: killProcessOnPort_frame killProcessOnPort_registry)
      from fl(2) idle have reg: "runningApps w2 appId = None" by simp
      from idle app exf run have rf: "run_failed w2 appId cause = (Inl e, w')"
        by (simp add: runAppService_def withLock_def Let_def)
      with run_failed_no_entry[OF reg, of cause]
      have res: "e = ''Failed to run app '' @ show_number appId @ '': '' @ cause"
        "w' = send_output w2 ClientError (''Failed to run app: '' @ cause) appId"
        by simp_all
      have after: "runningApps w' = runningApps w" "processCounter w' = processCounter w"
        "sent w' = sent w @ [\<lparr>ev_type = ClientError, ev_message = ''Failed to run app: '' @ cause,
                              ev_appId = appId, ev_timestamp = now w\<rparr>]"
        by (simp_all add: res(2) send_output_def fl)
      from after(1) idle have gone: "runningApps w' appId = None" by simp
      from idle fl(1) exf fl(6) fl(2) fl(3) res after gone show ?thesis by blast
    qed
  qed
  from first second show ?thesis by blast
qed

theorem runAppService_setup_failure_witness:
  "findApp idle_world 1 = Some demo_app \<and>
   runningApps idle_world 1 = None \<and> spawn_pid idle_world = None \<and>
   fst (runAppService idle_world 1) =
     Inl ''Failed to run app 1: Failed to spawn process for app 1. Error: Unknown spawn error'' \<and>
   runningApps (snd (runAppService idle_world 1)) 1 = None \<and>
   processCounter (snd (runAppService idle_world 1)) = 3 \<and>
   sent (snd (runAppService idle_world 1)) =
     [\<lparr>ev_type = ClientError,
       ev_message = ''Failed to run app: Failed to spawn process for app 1. Error: Unknown spawn error'',
       ev_appId = 1, ev_timestamp = 5000000\<rparr>]"
proof -
  have h: "findApp idle_world 1 = Some demo_app" "runningApps idle_world 1 = None"
    "spawn_pid idle_world = None" "spawn_stderr idle_world = []" "sent idle_world = []"
    "now idle_world = 5000000" "processCounter idle_world = 3"
    by (simp_all add: idle_world_def findApp_def demo_app_def)
  have n: "show_number 1 = ''1''"
    by (simp add: show_number_def show_nat.simps digit_char_def)
  from runAppService_setup_failure [OF h(1)] h(2) h(3)
  obtain e w' where run: "runAppService idle_world 1 = (Inl e, w')" by blast
  from runAppService_setup_failure [OF h(1)] run
  have "(\<exists>cause. cause = ''Failed to spawn process for app '' @ show_number 1 @ ''. Error: '' @
                  (if spawn_stderr idle_world \<noteq> [] then spawn_stderr idle_world else ''Unknown spawn error'') \<and>
        e = ''Failed to run app '' @ show_number 1 @ '': '' @ cause \<and>
        sent w' = sent idle_world @ [\<lparr>ev_type = ClientError, ev_message = ''Failed to run app: '' @ cause,
                                     ev_appId = 1, ev_timestamp = now idle_world\<rparr>]) \<and>
     runningApps w' 1 = None \<and> processCounter w' = processCounter idle_world"
    by blast
  with h n run show ?thesis by auto
qed


section \<open>The file service\<close>

text \<open>
  Claim C9. For a known app and a file path whose join with the app's directory does not
  start with that directory, \<^verbatim>\<open>readAppFileService\<close> fails with "Invalid file path" and
  returns no content, and \<^verbatim>\<open>editAppFileService\<close> fails with the same error and leaves
  the world as it was: no directory, file or commit is written.
\<close>

theorem file_services_reject_path_escape:
  assumes "findApp w appId = Some app"
      and "\<not> startsWith (path_join (getDyadAppPath w (app_path app)) filePath) (getDyadAppPath w (app_path app))"
  shows "readAppFileService w appId filePath = Inl ''Invalid file path''
       \<and> editAppFileService w appId filePath content = (Inl ''Invalid file path'', w)"
  using assms by (simp add: readAppFileService_def editAppFileService_def Let_def)

theorem file_services_reject_path_escape_witness:
  "findApp demo_world 1 = Some demo_app \<and>
   path_join (getDyadAppPath demo_world (app_path demo_app)) ''../x'' = ''/apps/x'' \<and>
   \<not> startsWith ''/apps/x'' ''/apps/demo'' \<and>
   readAppFileService demo_world 1 ''../x'' = Inl ''Invalid file path'' \<and>
   editAppFileService demo_world 1 ''../x'' ''text'' = (Inl ''Invalid file path'', demo_world)"
proof -
  have j: "path_join (getDyadAppPath demo_world (app_path demo_app)) ''../x'' = ''/apps/x''"
    by (simp add: demo_appPath) (simp add: path_simps)
  have n: "\<not> startsWith ''/apps/x'' ''/apps/demo''"
    by (simp add: startsWith_def)
  from file_services_reject_path_escape [OF demo_findApp, of "''../x''" "''text''"] j n demo_findApp
  show ?thesis by (simp add: demo_appPath)
qed

section \<open>Listing versions\<close>

lemma log_walk_length: "log_walk n objs c = Inr cs \<Longrightarrow> length cs \<le> n"
  by (induction n arbitrary: c cs) (auto split: option.splits sum.splits)

lemma log_walk_objects: "log_walk n objs c = Inr cs \<Longrightarrow> x \<in> set cs \<Longrightarrow> map_of objs (fst x) = Some (snd x)"
  by (induction n arbitrary: c cs) (auto split: option.splits sum.splits)

lemma log_walk_hd: "log_walk n objs c = Inr cs \<Longrightarrow> cs \<noteq> [] \<Longrightarrow> fst (hd cs) = c"
  by (cases n) (auto split: option.splits sum.splits)

lemma log_walk_nonempty: "log_walk (Suc n) objs c = Inr cs \<Longrightarrow> cs \<noteq> []"
  by (auto split: option.splits sum.splits)

lemma log_walk_chain: "log_walk n objs c = Inr cs \<Longrightarrow> is_chain cs"
proof (induction n arbitrary: c cs)
  case 0
  then show ?case by simp
next
  case (Suc n)
  from Suc.prems obtain obj where obj: "map_of objs c = Some obj"
    by (auto split: option.splits)
  show ?case
  proof (cases "c_parent obj")
    case None
    with Suc.prems obj show ?thesis by auto
  next
    case (Some p)
    with Suc.prems obj obtain rest where rest: "log_walk n objs p = Inr rest" "cs = (c, obj) # rest"
      by (auto split: sum.splits)
    show ?thesis
    proof (cases rest)
      case Nil
      with rest show ?thesis by simp
    next
      case (Cons y ys)
      with rest log_walk_hd[of n objs p rest] have "fst y = p" by simp
      with Cons rest Some Suc.IH[OF rest(1)] show ?thesis by simp
    qed
  qed
qed

lemma log_walk_complete:
  "log_walk n objs c = Inr cs \<Longrightarrow> length cs < n \<Longrightarrow> c_parent (snd (last cs)) = None"
proof (induction n arbitrary: c cs)
  case 0
  then show ?case by simp
next
  case (Suc n)
  from Suc.prems obtain obj where obj: "map_of objs c = Some obj"
    by (auto split: option.splits)
  show ?case
  proof (cases "c_parent obj")
    case None
    with Suc.prems obj show ?thesis by auto
  next
    case (Some p)
    with Suc.prems obj obtain rest where rest: "log_walk n objs p = Inr rest" "cs = (c, obj) # rest"
      by (auto split: sum.splits)
    with Suc.prems have len: "length rest < n" by simp
    then have "rest \<noteq> []" using rest(1) by (cases n) (auto split: option.splits sum.splits)
    with Suc.IH[OF rest(1) len] rest show ?thesis by simp
  qed
qed

text \<open>
  Claim C7, as stated, fails on a repository without a commit: the app is known and its
  directory has \<^verbatim>\<open>.git\<close>, and \<^verbatim>\<open>listVersionsService\<close> throws.
\<close>

theorem listVersionsService_unborn_counterexample:
  "findApp unborn_world 1 = Some demo_app \<and>
   fs_existsSync unborn_world (path_join (getDyadAppPath unborn_world (app_path demo_app)) ''.git'') \<and>
   listVersionsService unborn_world 1 =
     Inl ''Failed to list versions: NotFoundError: Could not find HEAD.''"
proof -
  have a: "findApp unborn_world 1 = Some demo_app"
    by (simp add: findApp_def unborn_world_def demo_world_def demo_app_def)
  have p: "getDyadAppPath unborn_world (app_path demo_app) = ''/apps/demo''"
    by (simp add: getDyadAppPath_def unborn_world_def demo_world_def demo_app_def path_simps)
  have e: "fs_existsSync unborn_world ''/apps/demo/.git''"
    by (simp add: fs_existsSync_def unborn_world_def demo_git_dir)
  have g: "git_log unborn_world ''/apps/demo'' 1000 = Inl ''NotFoundError: Could not find HEAD.''"
    by (simp add: git_log_def git_repo_def resolve_head_def unborn_world_def)
  from a p e g show ?thesis
    by (simp add: listVersionsService_def demo_git_dir)
qed

text \<open>
  Claim C7, amended. For an app id known to the store, \<^verbatim>\<open>listVersionsService\<close> returns
  the empty list when the app directory has no \<^verbatim>\<open>.git\<close>. Otherwise, when \<^verbatim>\<open>git.log\<close>
  fails (as it does on a repository without a commit) the call fails with "Failed to list
  versions: " and the cause; when it succeeds the call returns its commits, each with its
  identifier, message and author timestamp: at most 1000, starting at the commit of
  \<^verbatim>\<open>HEAD\<close>, each followed by its parent, and reaching the first commit of the history when
  there are fewer than 1000.
\<close>

theorem listVersionsService_result:
  assumes "findApp w appId = Some app"
  shows "(\<not> fs_existsSync w (path_join (getDyadAppPath w (app_path app)) ''.git'') \<longrightarrow>
            listVersionsService w appId = Inr [])
       \<and> (fs_existsSync w (path_join (getDyadAppPath w (app_path app)) ''.git'') \<longrightarrow>
            (\<forall>e. git_log w (getDyadAppPath w (app_path app)) 1000 = Inl e \<longrightarrow>
                 listVersionsService w appId = Inl (''Failed to list versions: '' @ e))
          \<and> (\<forall>commits. git_log w (getDyadAppPath w (app_path app)) 1000 = Inr commits \<longrightarrow>
                 listVersionsService w appId = Inr (map toVersion commits)
               \<and> length commits \<le> 1000
               \<and> is_chain commits
               \<and> (length commits < 1000 \<longrightarrow> c_parent (snd (last commits)) = None)
               \<and> (\<forall>r. git_repo w (getDyadAppPath w (app_path app)) = Inr r \<longrightarrow>
                     commits \<noteq> [] \<and> resolve_head r = Some (fst (hd commits))
                   \<and> (\<forall>x \<in> set commits. map_of (objects r) (fst x) = Some (snd x)
                        \<and> oid (toVersion x) = fst x \<and> message (toVersion x) = c_message (snd x)
                        \<and> timestamp (toVersion x) = c_timestamp (snd x)))))"
proof -
  let ?appPath = "getDyadAppPath w (app_path app)"
  have a: "listVersionsService w appId = Inr []" if "\<not> fs_existsSync w (path_join ?appPath ''.git'')"
    using assms that by (simp add: listVersionsService_def)
  have b: "listVersionsService w appId = Inl (''Failed to list versions: '' @ e)"
    if "fs_existsSync w (path_join ?appPath ''.git'')" "git_log w ?appPath 1000 = Inl e" for e
    using assms that by (simp add: listVersionsService_def)
  have c: "listVersionsService w appId = Inr (map toVersion commits)"
    if "fs_existsSync w (path_join ?appPath ''.git'')" "git_log w ?appPath 1000 = Inr commits" for commits
    using assms that by (simp add: listVersionsService_def)
  have d: "length commits \<le> 1000 \<and> is_chain commits \<and> (length commits < 1000 \<longrightarrow> c_parent (snd (last commits)) = None)
         \<and> (\<forall>r. git_repo w ?appPath = Inr r \<longrightarrow>
                     commits \<noteq> [] \<and> resolve_head r = Some (fst (hd commits))
                   \<and> (\<forall>x \<in> set commits. map_of (objects r) (fst x) = Some (snd x)
                        \<and> oid (toVersion x) = fst x \<and> message (toVersion x) = c_message (snd x)
                        \<and> timestamp (toVersion x) = c_timestamp (snd x)))"
    if gl: "git_log w ?appPath 1000 = Inr commits" for commits
  proof -
    from gl obtain r c where r: "git_repo w ?appPath = Inr r" and h: "resolve_head r = Some c"
      and lw: "log_walk 1000 (objects r) c = Inr commits"
      by (auto simp: git_log_def split: sum.splits option.splits)
    have ne: "commits \<noteq> []"
      using lw log_walk_nonempty[of 999 "objects r" c commits] by simp
    from lw log_walk_length[OF lw] log_walk_chain[OF lw] log_walk_complete[OF lw]
      log_walk_hd[OF lw ne] log_walk_objects[OF lw] r h ne
    show ?thesis by (auto simp: toVersion_def)
  qed
  from a b c d show ?thesis by blast
qed

lemma demo_git_log:
  "git_log demo_world ''/apps/demo'' 1000 = Inr [(''c2'', c2), (''c1'', c1)]"
  by (simp add: git_log_def git_repo_def resolve_head_def demo_world_def demo_repo_def log_walk_numeral
        c1_def c2_def)

lemma demo_has_git: "fs_existsSync demo_world ''/apps/demo/.git''"
  by (simp add: fs_existsSync_def demo_world_def demo_git_dir)

theorem listVersionsService_result_witness:
  "findApp demo_world 1 = Some demo_app \<and>
   fs_existsSync demo_world (path_join (getDyadAppPath demo_world (app_path demo_app)) ''.git'') \<and>
   git_log demo_world (getDyadAppPath demo_world (app_path demo_app)) 1000 = Inr [(''c2'', c2), (''c1'', c1)] \<and>
   listVersionsService demo_world 1 =
     Inr [\<lparr>oid = ''c2'', message = ''edit\<newline>'', timestamp = 200\<rparr>,
          \<lparr>oid = ''c1'', message = ''init\<newline>'', timestamp = 100\<rparr>] \<and>
   is_chain [(''c2'', c2), (''c1'', c1)] \<and> c_parent c1 = None"
  using listVersionsService_result [OF demo_findApp] demo_findApp demo_has_git demo_git_log
  by (simp add: demo_appPath demo_git_dir) (simp add: toVersion_def c1_def c2_def)

section \<open>Checking out a version\<close>

lemma repo_has_git_dir: "d \<in> set (map fst (repos w)) \<Longrightarrow> fs_existsSync w (path_join d ''.git'')"
  by (force simp: fs_existsSync_def)

lemma git_checkout_effect:
  assumes "git_checkout w dir ref = Inr w'"
  shows "messages w' = messages w \<and> apps w' = apps w \<and> appBase w' = appBase w \<and>
     (\<exists>r r' c obj. git_repo w dir = Inr r \<and> git_repo w' dir = Inr r' \<and> read_commit r ref = Inr (c, obj) \<and>
        objects r' = objects r \<and> branches r' = branches r \<and> index r' = AList.clearjunk (c_tree obj) \<and>
        resolve_head r' = Some c \<and>
        HEAD r' = (if ref \<noteq> ''HEAD'' \<and> map_of (branches r) ref \<noteq> None then OnBranch ref else Detached c) \<and>
        dir \<in> set (map fst (repos w'))) \<and>
     (\<forall>d. d \<noteq> dir \<longrightarrow> map_of (repos w') d = map_of (repos w) d)"
proof -
  from assms obtain r c obj where r: "git_repo w dir = Inr r" and rc: "read_commit r ref = Inr (c, obj)"
    by (auto simp: git_checkout_def split: sum.splits)
  let ?head = "(if ref \<noteq> ''HEAD'' \<and> map_of (branches r) ref \<noteq> None then OnBranch ref else Detached c)"
  let ?r' = "r\<lparr>HEAD := ?head, index := AList.clearjunk (c_tree obj)\<rparr>"
  from assms[symmetric] r rc have rep: "repos w' = AList.update dir ?r' (repos w)"
    and fr: "messages w' = messages w" "apps w' = apps w" "appBase w' = appBase w"
    by (simp_all add: git_checkout_def Let_def)
  have g': "git_repo w' dir = Inr ?r'"
    by (simp add: git_repo_def rep update_conv')
  have rh: "resolve_head ?r' = Some c"
    using rc by (auto simp: resolve_head_def read_commit_def resolve_ref_def split: option.splits if_splits)
  have "dir \<in> set (map fst (repos w'))"
    unfolding rep by (simp add: dom_update)
  with r g' rc rh fr rep show ?thesis
    by (auto simp: update_conv')
qed

text \<open>
  Claim C8, as stated, fails: checking out the first commit of the demo app succeeds, and
  \<^verbatim>\<open>listVersionsService\<close> lists two versions before the call and one after it.
\<close>

theorem checkoutVersionService_list_counterexample:
  "fst (checkoutVersionService demo_world 1 ''c1'') = Inr True \<and>
   listVersionsService demo_world 1 =
     Inr [\<lparr>oid = ''c2'', message = ''edit\<newline>'', timestamp = 200\<rparr>,
          \<lparr>oid = ''c1'', message = ''init\<newline>'', timestamp = 100\<rparr>] \<and>
   listVersionsService (snd (checkoutVersionService demo_world 1 ''c1'')) 1 =
     Inr [\<lparr>oid = ''c1'', message = ''init\<newline>'', timestamp = 100\<rparr>]"
proof -
  have before: "listVersionsService demo_world 1 =
     Inr [\<lparr>oid = ''c2'', message = ''edit\<newline>'', timestamp = 200\<rparr>,
          \<lparr>oid = ''c1'', message = ''init\<newline>'', timestamp = 100\<rparr>]"
    using demo_findApp demo_has_git demo_git_log
    by (simp add: listVersionsService_def demo_appPath demo_git_dir) (simp add: toVersion_def c1_def c2_def)
  obtain w' where co: "git_checkout demo_world ''/apps/demo'' ''c1'' = Inr w'"
    and r': "repos w' = [(''/apps/demo'', demo_repo\<lparr>HEAD := Detached ''c1'', index := c_tree c1\<rparr>)]"
    and fr: "apps w' = apps demo_world" "appBase w' = appBase demo_world"
    by (simp add: git_checkout_def git_repo_def read_commit_def resolve_ref_def demo_world_def demo_repo_def c1_def Let_def)
  have run: "checkoutVersionService demo_world 1 ''c1'' = (Inr True, w')"
    using demo_findApp co by (simp add: checkoutVersionService_def demo_appPath)
  have app': "findApp w' 1 = Some demo_app" "getDyadAppPath w' (app_path demo_app) = ''/apps/demo''"
    using demo_findApp demo_appPath fr by (simp_all add: findApp_def getDyadAppPath_def)
  have ex: "fs_existsSync w' ''/apps/demo/.git''"
    by (simp add: fs_existsSync_def r' demo_git_dir)
  have "git_log w' ''/apps/demo'' 1000 = Inr [(''c1'', c1)]"
    by (simp add: git_log_def git_repo_def resolve_head_def r' demo_repo_def log_walk_numeral c1_def)
  with app' ex have "listVersionsService w' 1 = Inr [\<lparr>oid = ''c1'', message = ''init\<newline>'', timestamp = 100\<rparr>]"
    by (simp add: listVersionsService_def demo_git_dir) (simp add: toVersion_def c1_def)
  with before run show ?thesis by simp
qed

text \<open>
  Claim C8, amended. A successful \<^verbatim>\<open>checkoutVersionService\<close> creates no commit and moves
  no branch (the objects and branches of the repository are as before), modifies no
  conversation message and no other repository. Besides the working tree it sets the index
  to the tree of the version and moves \<^verbatim>\<open>HEAD\<close> to it, detached unless the version id names
  a branch; \<^verbatim>\<open>listVersionsService\<close> then lists the history of the checked-out commit.
\<close>

theorem checkoutVersionService_effect:
  assumes "findApp w appId = Some app"
      and "checkoutVersionService w appId versionId = (Inr True, w')"
  shows "messages w' = messages w \<and> apps w' = apps w \<and>
     (\<exists>r r' c obj.
        git_repo w (getDyadAppPath w (app_path app)) = Inr r \<and>
        git_repo w' (getDyadAppPath w (app_path app)) = Inr r' \<and>
        read_commit r versionId = Inr (c, obj) \<and>
        objects r' = objects r \<and> branches r' = branches r \<and>
        index r' = AList.clearjunk (c_tree obj) \<and>
        HEAD r' = (if versionId \<noteq> ''HEAD'' \<and> map_of (branches r) versionId \<noteq> None
                   then OnBranch versionId else Detached c) \<and>
        listVersionsService w' appId =
          (case log_walk 1000 (objects r) c of
             Inl e \<Rightarrow> Inl (''Failed to list versions: '' @ e)
           | Inr commits \<Rightarrow> Inr (map toVersion commits))) \<and>
     (\<forall>d. d \<noteq> getDyadAppPath w (app_path app) \<longrightarrow> map_of (repos w') d = map_of (repos w) d)"
proof -
  let ?appPath = "getDyadAppPath w (app_path app)"
  from assms have co: "git_checkout w ?appPath versionId = Inr w'"
    by (auto simp: checkoutVersionService_def Let_def split: sum.splits)
  from git_checkout_effect[OF co] obtain r r' c obj where
    fr: "messages w' = messages w" "apps w' = apps w" "appBase w' = appBase w"
    and r: "git_repo w ?appPath = Inr r" "git_repo w' ?appPath = Inr r'" "read_commit r versionId = Inr (c, obj)"
      "objects r' = objects r" "branches r' = branches r" "index r' = AList.clearjunk (c_tree obj)"
      "resolve_head r' = Some c"
      "HEAD r' = (if versionId \<noteq> ''HEAD'' \<and> map_of (branches r) versionId \<noteq> None
                   then OnBranch versionId else Detached c)"
      "?appPath \<in> set (map fst (repos w'))"
    and others: "\<forall>d. d \<noteq> ?appPath \<longrightarrow> map_of (repos w') d = map_of (repos w) d"
    by blast
  have app': "findApp w' appId = Some app" "getDyadAppPath w' (app_path app) = ?appPath"
    using assms(1) fr by (simp_all add: findApp_def getDyadAppPath_def)
  have ex: "fs_existsSync w' (path_join ?appPath ''.git'')"
    using r(9) by (rule repo_has_git_dir)
  have "listVersionsService w' appId =
          (case log_walk 1000 (objects r) c of
             Inl e \<Rightarrow> Inl (''Failed to list versions: '' @ e)
           | Inr commits \<Rightarrow> Inr (map toVersion commits))"
    using app' ex r by (simp add: listVersionsService_def git_log_def)
  with fr r others show ?thesis by blast
qed

theorem checkoutVersionService_effect_witness:
  "findApp demo_world 1 = Some demo_app \<and>
   fst (checkoutVersionService demo_world 1 ''c1'') = Inr True \<and>
   messages (snd (checkoutVersionService demo_world 1 ''c1'')) = messages demo_world \<and>
   apps (snd (checkoutVersionService demo_world 1 ''c1'')) = apps demo_world"
proof -
  have ok: "fst (checkoutVersionService demo_world 1 ''c1'') = Inr True"
    using demo_findApp
    by (simp add: checkoutVersionService_def demo_appPath)
       (simp add: git_checkout_def git_repo_def read_commit_def resolve_ref_def demo_world_def demo_repo_def Let_def)
  then have run: "checkoutVersionService demo_world 1 ''c1'' =
      (Inr True, snd (checkoutVersionService demo_world 1 ''c1''))"
    by (simp add: prod_eq_iff)
  from checkoutVersionService_effect [OF demo_findApp run] demo_findApp ok
  show ?thesis by simp
qed

section \<open>Reverting to a version\<close>

text \<open>
  Claim C10. The loop of \<^verbatim>\<open>revertVersionService\<close> gives, on every status matrix and in
  every world, the result and the world of the loop with two branches (restore a path present
  in the target and not identical in the working tree, delete a path absent in the target
  and present in the working tree): its third branch is never taken.
\<close>

lemma revert_path_two_branch_eq:
  "revert_path appPath v w row = revert_path_two_branch appPath v w row"
  by (cases row) (simp add: revert_path_def revert_path_two_branch_def Let_def)

theorem revert_paths_two_branch_eq:
  "revert_paths appPath v w matrix = revert_paths_two_branch appPath v w matrix"
  by (induction matrix arbitrary: w)
     (simp_all add: revert_path_two_branch_eq split: prod.splits sum.splits)

theorem revert_paths_two_branch_eq_witness:
  "revert_paths ''/apps/demo'' ''c1'' demo_world [(''a.ts'', 1, 2, 2), (''e.ts'', 0, 2, 0)] =
   revert_paths_two_branch ''/apps/demo'' ''c1'' demo_world [(''a.ts'', 1, 2, 2), (''e.ts'', 0, 2, 0)]"
  by (rule revert_paths_two_branch_eq)

lemma revert_commit_steps:
  assumes "revert_commit w p v = (Inr c, w4)"
  shows "\<exists>w1 matrix w2 w3.
           git_checkout w p ''main'' = Inr w1 \<and>
           git_statusMatrix w1 p v = Inr matrix \<and>
           revert_paths p v w1 matrix = (Inr (), w2) \<and>
           git_add w2 p ''.'' = Inr w3 \<and>
           git_commit w3 p (''Reverted all changes back to version '' @ v) (gitAuthor w3) = Inr (c, w4)"
  using assms by (auto simp: revert_commit_def split: sum.splits prod.splits)

text \<open>Operations on files and repositories neither read nor write the messages.\<close>

lemma git_repo_messages [simp]: "git_repo (w\<lparr>messages := ms\<rparr>) d = git_repo w d"
  by (simp add: git_repo_def)

lemma git_checkout_messages:
  "git_checkout (w\<lparr>messages := ms\<rparr>) d ref =
     (case git_checkout w d ref of Inl e \<Rightarrow> Inl e | Inr w' \<Rightarrow> Inr (w'\<lparr>messages := ms\<rparr>))"
  by (simp add: git_checkout_def Let_def split: sum.splits prod.splits)

lemma git_statusMatrix_messages [simp]:
  "git_statusMatrix (w\<lparr>messages := ms\<rparr>) d ref = git_statusMatrix w d ref"
  by (simp add: git_statusMatrix_def workdir_paths_def split: sum.splits prod.splits)

lemma git_readBlob_messages [simp]:
  "git_readBlob (w\<lparr>messages := ms\<rparr>) d c fp = git_readBlob w d c fp"
  by (simp add: git_readBlob_def)

lemma fs_existsSync_messages [simp]:
  "fs_existsSync (w\<lparr>messages := ms\<rparr>) p = fs_existsSync w p"
  by (simp add: fs_existsSync_def)

lemma fs_mkdir_messages:
  "fs_mkdir_recursive (w\<lparr>messages := ms\<rparr>) p =
     (case fs_mkdir_recursive w p of Inl e \<Rightarrow> Inl e | Inr w' \<Rightarrow> Inr (w'\<lparr>messages := ms\<rparr>))"
  by (simp add: fs_mkdir_recursive_def)

lemma fs_writeFile_messages:
  "fs_writeFile (w\<lparr>messages := ms\<rparr>) p c =
     (case fs_writeFile w p c of Inl e \<Rightarrow> Inl e | Inr w' \<Rightarrow> Inr (w'\<lparr>messages := ms\<rparr>))"
  by (simp add: fs_writeFile_def)

lemma fs_unlink_messages:
  "fs_unlink (w\<lparr>messages := ms\<rparr>) p =
     (case fs_unlink w p of Inl e \<Rightarrow> Inl e | Inr w' \<Rightarrow> Inr (w'\<lparr>messages := ms\<rparr>))"
  by (simp add: fs_unlink_def)

lemma git_remove_messages:
  "git_remove (w\<lparr>messages := ms\<rparr>) d fp =
     (case git_remove w d fp of Inl e \<Rightarrow> Inl e | Inr w' \<Rightarrow> Inr (w'\<lparr>messages := ms\<rparr>))"
  by (simp add: git_remove_def split: sum.splits)

lemma git_add_messages:
  "git_add (w\<lparr>messages := ms\<rparr>) d fp =
     (case git_add w d fp of Inl e \<Rightarrow> Inl e | Inr w' \<Rightarrow> Inr (w'\<lparr>messages := ms\<rparr>))"
  by (cases "git_repo w d") (simp_all add: git_add_def Let_def)

lemma git_commit_messages:
  "git_commit (w\<lparr>messages := ms\<rparr>) d m a =
     (case git_commit w d m a of Inl e \<Rightarrow> Inl e | Inr (c, w') \<Rightarrow> Inr (c, w'\<lparr>messages := ms\<rparr>))"
  by (simp add: git_commit_def Let_def split: sum.splits head_ref.splits)

lemma revert_path_messages:
  "revert_path p v (w\<lparr>messages := ms\<rparr>) row =
     (case revert_path p v w row of (r, w') \<Rightarrow> (r, w'\<lparr>messages := ms\<rparr>))"
  by (cases row)
     (simp add: revert_path_def Let_def fs_mkdir_messages fs_writeFile_messages fs_unlink_messages
        git_remove_messages split: sum.splits)

lemma revert_paths_messages:
  "revert_paths p v (w\<lparr>messages := ms\<rparr>) matrix =
     (case revert_paths p v w matrix of (r, w') \<Rightarrow> (r, w'\<lparr>messages := ms\<rparr>))"
  by (induction matrix arbitrary: w) (simp_all add: revert_path_messages split: prod.splits sum.splits)

lemma gitAuthor_messages [simp]: "gitAuthor (w\<lparr>messages := ms\<rparr>) = gitAuthor w"
  by simp

lemma revert_commit_messages:
  "revert_commit (w\<lparr>messages := ms\<rparr>) p v =
     (case revert_commit w p v of (r, w') \<Rightarrow> (r, w'\<lparr>messages := ms\<rparr>))"
  by (simp add: revert_commit_def git_checkout_messages revert_paths_messages git_add_messages
        git_commit_messages split: sum.splits prod.splits)

lemma revert_commit_keeps_messages: "revert_commit w p v = (r, w') \<Longrightarrow> messages w' = messages w"
  using revert_commit_messages[where w = w and ms = "messages w" and p = p and v = v]
  by (auto split: prod.splits dest: arg_cong[where f = messages])

lemma filter_none_removed:
  "filter P xs = [] \<Longrightarrow> filter (\<lambda>x. \<not> P x) xs = xs"
  by (induction xs) (auto split: if_splits)

lemma revert_messages_result:
  "messages (revert_messages w v) =
     (case messageWithCommit w v of
        None \<Rightarrow> messages w
      | Some m \<Rightarrow> filter (\<lambda>x. \<not> (msg_chatId x = msg_chatId m \<and> msg_id x > msg_id m)) (messages w))"
proof (cases "messageWithCommit w v")
  case None
  then show ?thesis by (simp add: revert_messages_def)
next
  case (Some m)
  let ?P = "\<lambda>x. msg_chatId x = msg_chatId m \<and> msg_id x > msg_id m"
  show ?thesis
  proof (cases "filter ?P (messages w) = []")
    case True
    from filter_none_removed[OF True] True Some show ?thesis
      by (simp add: revert_messages_def Let_def)
  next
    case False
    with Some show ?thesis by (simp add: revert_messages_def Let_def)
  qed
qed

text \<open>
  Claim C3. After a successful \<^verbatim>\<open>revertVersionService\<close> to a version: when a message is
  tagged with the version, the first such message \<open>m\<close> is found, and the messages left are
  exactly those that are not in the chat of \<open>m\<close> with an id greater than that of \<open>m\<close>, so
  \<open>m\<close>, the earlier messages of its chat and the other chats remain; when no message is
  tagged, the messages are as before. The call succeeds whatever the messages are.
\<close>

theorem revert_prunes_messages:
  assumes "revertVersionService w appId v = (Inr True, w')"
  shows "(\<forall>m. messageWithCommit w v = Some m \<longrightarrow>
            m \<in> set (messages w) \<and> msg_commitHash m = Some v \<and>
            messages w' = filter (\<lambda>x. \<not> (msg_chatId x = msg_chatId m \<and> msg_id x > msg_id m)) (messages w) \<and>
            m \<in> set (messages w'))
       \<and> ((\<exists>m \<in> set (messages w). msg_commitHash m = Some v) \<longrightarrow> messageWithCommit w v \<noteq> None)
       \<and> (messageWithCommit w v = None \<longrightarrow>
            (\<forall>m \<in> set (messages w). msg_commitHash m \<noteq> Some v) \<and> messages w' = messages w)
       \<and> (\<forall>ms. fst (revertVersionService (w\<lparr>messages := ms\<rparr>) appId v) = Inr True)"
proof -
  from assms obtain app where app: "findApp w appId = Some app"
    by (auto simp: revertVersionService_def split: option.splits)
  let ?p = "getDyadAppPath w (app_path app)"
  from assms app obtain c w1 where rc: "revert_commit w ?p v = (Inr c, w1)"
    and w': "w' = revert_messages w1 v"
    by (auto simp: revertVersionService_def Let_def split: prod.splits sum.splits)
  have keep: "messages w1 = messages w"
    using rc by (rule revert_commit_keeps_messages)
  then have same: "messageWithCommit w1 v = messageWithCommit w v"
    by (simp add: messageWithCommit_def)
  have res: "messages w' =
     (case messageWithCommit w v of
        None \<Rightarrow> messages w
      | Some m \<Rightarrow> filter (\<lambda>x. \<not> (msg_chatId x = msg_chatId m \<and> msg_id x > msg_id m)) (messages w))"
    unfolding w' revert_messages_result same keep ..
  have a: "m \<in> set (messages w) \<and> msg_commitHash m = Some v \<and>
            messages w' = filter (\<lambda>x. \<not> (msg_chatId x = msg_chatId m \<and> msg_id x > msg_id m)) (messages w) \<and>
            m \<in> set (messages w')" if "messageWithCommit w v = Some m" for m
  proof -
    from that have "m \<in> set (messages w)" "msg_commitHash m = Some v"
      by (auto simp: messageWithCommit_def find_Some_iff)
    with res that show ?thesis by simp
  qed
  have b: "messageWithCommit w v \<noteq> None" if "\<exists>m \<in> set (messages w). msg_commitHash m = Some v"
    using that by (auto simp: messageWithCommit_def find_None_iff)
  have c: "(\<forall>m \<in> set (messages w). msg_commitHash m \<noteq> Some v) \<and> messages w' = messages w"
    if "messageWithCommit w v = None"
  proof -
    from that res have "messages w' = messages w" by simp
    moreover from that have "\<forall>m \<in> set (messages w). msg_commitHash m \<noteq> Some v"
      by (auto simp: messageWithCommit_def find_None_iff)
    ultimately show ?thesis by simp
  qed
  have d: "fst (revertVersionService (w\<lparr>messages := ms\<rparr>) appId v) = Inr True" for ms
  proof -
    have "findApp (w\<lparr>messages := ms\<rparr>) appId = Some app"
      "getDyadAppPath (w\<lparr>messages := ms\<rparr>) (app_path app) = ?p"
      using app by (simp_all add: findApp_def getDyadAppPath_def)
    then show ?thesis
      using rc by (simp add: revertVersionService_def revert_commit_messages)
  qed
  from a b c d show ?thesis by blast
qed

lemma demo_revert_ok: "fst (revertVersionService demo_world 1 ''c1'') = Inr True"
  by code_simp

theorem revert_prunes_messages_witness:
  "fst (revertVersionService demo_world 1 ''c1'') = Inr True \<and>
   messageWithCommit demo_world ''c1'' = Some m1 \<and>
   messages demo_world = [m1, m2, m3, m4] \<and>
   messages (snd (revertVersionService demo_world 1 ''c1'')) = [m1, m3]"
proof -
  have run: "revertVersionService demo_world 1 ''c1'' =
      (Inr True, snd (revertVersionService demo_world 1 ''c1''))"
    using demo_revert_ok by (simp add: prod_eq_iff)
  have tag: "messageWithCommit demo_world ''c1'' = Some m1"
    by (simp add: messageWithCommit_def demo_world_def m1_def)
  have ms: "messages demo_world = [m1, m2, m3, m4]"
    by (simp add: demo_world_def)
  from revert_prunes_messages [OF run] tag
  have "messages (snd (revertVersionService demo_world 1 ''c1'')) =
     filter (\<lambda>x. \<not> (msg_chatId x = msg_chatId m1 \<and> msg_id x > msg_id m1)) (messages demo_world)"
    by blast
  then have "messages (snd (revertVersionService demo_world 1 ''c1'')) = [m1, m3]"
    by (simp add: ms) (simp add: m1_def m2_def m3_def m4_def)
  with demo_revert_ok tag ms show ?thesis by simp
qed

subsection \<open>The history after a revert\<close>

lemma same_history_refl: "git_repo w p = Inr r \<Longrightarrow> same_history w w p"
  by (simp add: same_history_def)

lemma fs_mkdir_history:
  "fs_mkdir_recursive w d = Inr w' \<Longrightarrow> same_history w0 w p \<Longrightarrow> same_history w0 w' p"
  by (auto simp: fs_mkdir_recursive_def same_history_def git_repo_def split: if_splits)

lemma fs_writeFile_history:
  "fs_writeFile w f c = Inr w' \<Longrightarrow> same_history w0 w p \<Longrightarrow> same_history w0 w' p"
  by (auto simp: fs_writeFile_def same_history_def git_repo_def split: if_splits)

lemma fs_unlink_history:
  "fs_unlink w f = Inr w' \<Longrightarrow> same_history w0 w p \<Longrightarrow> same_history w0 w' p"
  by (auto simp: fs_unlink_def same_history_def git_repo_def split: if_splits)

lemma git_remove_history:
  "git_remove w p fp = Inr w' \<Longrightarrow> same_history w0 w p \<Longrightarrow> same_history w0 w' p"
  by (auto simp: git_remove_def same_history_def git_repo_def update_conv' split: sum.splits option.splits)

lemma git_add_history:
  "git_add w p fp = Inr w' \<Longrightarrow> same_history w0 w p \<Longrightarrow> same_history w0 w' p"
  by (auto simp: git_add_def same_history_def git_repo_def update_conv' Let_def split: sum.splits option.splits if_splits)

lemma revert_path_history:
  assumes "revert_path p v w row = (res, w')" and "same_history w0 w p"
  shows "same_history w0 w' p"
proof -
  obtain fp h wd st where row: "row = (fp, h, wd, st)" by (cases row)
  show ?thesis
    using assms unfolding row revert_path_def Let_def
    by (auto split: if_splits sum.splits
          intro: fs_mkdir_history fs_writeFile_history fs_unlink_history git_remove_history)
qed

lemma revert_paths_history:
  "revert_paths p v w matrix = (res, w') \<Longrightarrow> same_history w0 w p \<Longrightarrow> same_history w0 w' p"
proof (induction matrix arbitrary: w)
  case Nil
  then show ?case by simp
next
  case (Cons row matrix)
  obtain r1 w1 where step: "revert_path p v w row = (r1, w1)" by (cases "revert_path p v w row")
  from revert_path_history[OF step Cons.prems(2)] have h1: "same_history w0 w1 p" .
  show ?case
  proof (cases r1)
    case (Inl e)
    with step Cons.prems h1 show ?thesis by simp
  next
    case (Inr u)
    with step Cons.prems have "revert_paths p v w1 matrix = (res, w')" by simp
    from Cons.IH[OF this h1] show ?thesis .
  qed
qed

lemma log_walk_take:
  "log_walk n objs c = Inr cs \<Longrightarrow> m \<le> n \<Longrightarrow> log_walk m objs c = Inr (take m cs)"
proof (induction n arbitrary: m c cs)
  case 0
  then show ?case by simp
next
  case (Suc n)
  show ?case
  proof (cases m)
    case 0
    then show ?thesis by simp
  next
    case (Suc m')
    from Suc.prems(1) obtain obj where obj: "map_of objs c = Some obj"
      by (auto split: option.splits)
    show ?thesis
    proof (cases "c_parent obj")
      case None
      with Suc.prems obj Suc show ?thesis by auto
    next
      case (Some q)
      with Suc.prems obj obtain rest where rest: "log_walk n objs q = Inr rest" "cs = (c, obj) # rest"
        by (auto split: sum.splits)
      from Suc.prems(2) Suc have "m' \<le> n" by simp
      from Suc.IH[OF rest(1) this] rest obj Some Suc show ?thesis by simp
    qed
  qed
qed

lemma log_walk_extend:
  "log_walk n objs c = Inr cs \<Longrightarrow> new \<notin> set (map fst objs) \<Longrightarrow>
   log_walk n (objs @ [(new, obj)]) c = Inr cs"
proof (induction n arbitrary: c cs)
  case 0
  then show ?case by simp
next
  case (Suc n)
  from Suc.prems(1) obtain o1 where o1: "map_of objs c = Some o1"
    by (auto split: option.splits)
  then have o1': "map_of (objs @ [(new, obj)]) c = Some o1"
    by (simp add: map_add_Some_iff)
  show ?case
  proof (cases "c_parent o1")
    case None
    with Suc.prems o1 o1' show ?thesis by simp
  next
    case (Some q)
    with Suc.prems o1 obtain rest where rest: "log_walk n objs q = Inr rest" "cs = (c, o1) # rest"
      by (auto split: sum.splits)
    from Suc.IH[OF rest(1) Suc.prems(2)] rest o1' Some show ?thesis by simp
  qed
qed

lemma revert_messages_frame:
  "repos (revert_messages w v) = repos w \<and> apps (revert_messages w v) = apps w \<and>
   appBase (revert_messages w v) = appBase w \<and> files (revert_messages w v) = files w \<and>
   dirs (revert_messages w v) = dirs w"
  by (simp add: revert_messages_def Let_def split: option.splits)

lemma git_checkout_main:
  assumes "git_checkout w p ''main'' = Inr wa"
      and "git_repo w p = Inr r" and "map_of (branches r) ''main'' = Some tip"
  shows "\<exists>ra. git_repo wa p = Inr ra \<and> objects ra = objects r \<and> branches ra = branches r \<and>
           HEAD ra = OnBranch ''main'' \<and> apps wa = apps w \<and> appBase wa = appBase w \<and>
           now wa = now w \<and> hash_object wa = hash_object w \<and> gitAuthor wa = gitAuthor w"
proof -
  from assms obtain c obj where rc: "read_commit r ''main'' = Inr (c, obj)"
    by (auto simp: git_checkout_def split: sum.splits)
  let ?ra = "r\<lparr>HEAD := OnBranch ''main'', index := AList.clearjunk (c_tree obj)\<rparr>"
  from assms(1)[symmetric] assms(2,3) rc have "repos wa = AList.update p ?ra (repos w)"
    "apps wa = apps w" "appBase wa = appBase w" "now wa = now w" "hash_object wa = hash_object w"
    "gitAuthor wa = gitAuthor w"
    by (simp_all add: git_checkout_def Let_def)
  then show ?thesis
    by (auto simp: git_repo_def update_conv')
qed

lemma git_commit_on_branch:
  assumes "git_commit w p msg author = Inr (c, w')"
      and "git_repo w p = Inr r" and "HEAD r = OnBranch b" and "map_of (branches r) b = Some tip"
      and "c \<notin> set (map fst (objects r))"
  shows "\<exists>obj r'. git_repo w' p = Inr r' \<and> objects r' = objects r @ [(c, obj)] \<and>
           branches r' = AList.update b c (branches r) \<and> HEAD r' = OnBranch b \<and>
           c_parent obj = Some tip \<and> c_message obj = normalizeNewlines msg \<and>
           apps w' = apps w \<and> appBase w' = appBase w \<and> p \<in> set (map fst (repos w'))"
proof -
  let ?obj = "\<lparr>c_message = normalizeNewlines msg, c_author = author, c_timestamp = now w div 1000,
                     c_parent = resolve_head r, c_tree = index r\<rparr>"
  from assms(1,2) have c: "c = hash_object w ?obj"
    by (auto simp: git_commit_def Let_def)
  let ?r' = "r\<lparr>objects := objects r @ [(c, ?obj)], branches := AList.update b c (branches r)\<rparr>"
  from assms(1)[symmetric] assms(2,3,5) c have "repos w' = AList.update p ?r' (repos w)"
    "apps w' = apps w" "appBase w' = appBase w"
    by (simp_all add: git_commit_def Let_def)
  moreover have "resolve_head r = Some tip"
    using assms(3,4) by (simp add: resolve_head_def)
  ultimately show ?thesis
    using assms(3) by (auto simp: git_repo_def update_conv' dom_update)
qed

text \<open>
  Claim C2, as stated, fails after a preview: with \<^verbatim>\<open>HEAD\<close> detached at the first commit
  \<^verbatim>\<open>listVersionsService\<close> lists one version; the revert to that commit succeeds, commits
  on top of \<^verbatim>\<open>main\<close>, and \<^verbatim>\<open>listVersionsService\<close> then lists three.
\<close>

theorem revert_history_length_counterexample:
  "previewed_world = snd (checkoutVersionService demo_world 1 ''c1'') \<and>
   fst (checkoutVersionService demo_world 1 ''c1'') = Inr True \<and>
   listVersionsService previewed_world 1 = Inr [\<lparr>oid = ''c1'', message = ''init\<newline>'', timestamp = 100\<rparr>] \<and>
   fst (revertVersionService previewed_world 1 ''c1'') = Inr True \<and>
   listVersionsService (snd (revertVersionService previewed_world 1 ''c1'')) 1 =
     Inr [\<lparr>oid = ''rc2'', message = ''Reverted all changes back to version c1\<newline>'', timestamp = 5000\<rparr>,
          \<lparr>oid = ''c2'', message = ''edit\<newline>'', timestamp = 200\<rparr>,
          \<lparr>oid = ''c1'', message = ''init\<newline>'', timestamp = 100\<rparr>]"
proof -
  have "fst (checkoutVersionService demo_world 1 ''c1'') = Inr True"
    by code_simp
  moreover have "listVersionsService previewed_world 1 =
      Inr [\<lparr>oid = ''c1'', message = ''init\<newline>'', timestamp = 100\<rparr>]"
    by code_simp
  moreover have "fst (revertVersionService previewed_world 1 ''c1'') = Inr True"
    by code_simp
  moreover have "listVersionsService (snd (revertVersionService previewed_world 1 ''c1'')) 1 =
     Inr [\<lparr>oid = ''rc2'', message = ''Reverted all changes back to version c1\<newline>'', timestamp = 5000\<rparr>,
          \<lparr>oid = ''c2'', message = ''edit\<newline>'', timestamp = 200\<rparr>,
          \<lparr>oid = ''c1'', message = ''init\<newline>'', timestamp = 100\<rparr>]"
    by code_simp
  ultimately show ?thesis by (simp add: previewed_world_def)
qed

text \<open>
  Claim C2, amended. Let \<^verbatim>\<open>main\<close> point to a commit \<open>tip\<close> whose history can be listed,
  and let the revert to \<open>v\<close> get as far as its commit, with an identifier that no stored
  commit has. Then \<^verbatim>\<open>revertVersionService\<close> succeeds; the repository has the commits it
  had, unchanged, and one more, whose parent is \<open>tip\<close> and whose message records \<open>v\<close>
  (in the form the library stores a message in, which ends with a newline);
  \<^verbatim>\<open>main\<close> points to it and \<^verbatim>\<open>HEAD\<close> is on \<^verbatim>\<open>main\<close>. \<^verbatim>\<open>listVersionsService\<close> then
  returns the new commit followed by the 999 newest commits of the old history of
  \<^verbatim>\<open>main\<close>. When \<^verbatim>\<open>HEAD\<close> was on \<^verbatim>\<open>main\<close> before the call and the history had fewer
  than 1000 commits, that is the list of before with the new commit in front.
\<close>

theorem revert_extends_history:
  assumes app: "findApp w appId = Some app"
      and rc: "revert_commit w (getDyadAppPath w (app_path app)) v = (Inr c, w1)"
      and repo: "git_repo w (getDyadAppPath w (app_path app)) = Inr r"
      and tip: "map_of (branches r) ''main'' = Some tip"
      and fresh: "c \<notin> set (map fst (objects r))"
      and hist: "log_walk 1000 (objects r) tip = Inr history"
  shows "revertVersionService w appId v = (Inr True, revert_messages w1 v) \<and>
     (\<exists>obj r'.
        git_repo (revert_messages w1 v) (getDyadAppPath w (app_path app)) = Inr r' \<and>
        objects r' = objects r @ [(c, obj)] \<and>
        branches r' = AList.update ''main'' c (branches r) \<and>
        HEAD r' = OnBranch ''main'' \<and>
        c_parent obj = Some tip \<and>
        c_message obj = normalizeNewlines (''Reverted all changes back to version '' @ v) \<and>
        (\<forall>k old. map_of (objects r) k = Some old \<longrightarrow> map_of (objects r') k = Some old) \<and>
        listVersionsService (revert_messages w1 v) appId =
          Inr (toVersion (c, obj) # take 999 (map toVersion history)) \<and>
        (HEAD r = OnBranch ''main'' \<and> length history < 1000 \<longrightarrow>
           listVersionsService w appId = Inr (map toVersion history) \<and>
           listVersionsService (revert_messages w1 v) appId =
             Inr (toVersion (c, obj) # map toVersion history)))"
proof -
  let ?p = "getDyadAppPath w (app_path app)"
  let ?w' = "revert_messages w1 v"
  have run: "revertVersionService w appId v = (Inr True, ?w')"
    using app rc by (simp add: revertVersionService_def)
  from revert_commit_steps[OF rc] obtain wa matrix wb wc where
    co: "git_checkout w ?p ''main'' = Inr wa" and
    lp: "revert_paths ?p v wa matrix = (Inr (), wb)" and
    ad: "git_add wb ?p ''.'' = Inr wc" and
    cm: "git_commit wc ?p (''Reverted all changes back to version '' @ v) (gitAuthor wc) = Inr (c, w1)"
    by blast
  from git_checkout_main[OF co repo tip] obtain ra where
    ra: "git_repo wa ?p = Inr ra" "objects ra = objects r" "branches ra = branches r"
      "HEAD ra = OnBranch ''main''" "apps wa = apps w" "appBase wa = appBase w"
    by blast
  have "same_history wa wb ?p"
    using revert_paths_history[OF lp same_history_refl[OF ra(1)]] .
  from git_add_history[OF ad this] have "same_history wa wc ?p" .
  with ra obtain rc3 where
    rc3: "git_repo wc ?p = Inr rc3" "objects rc3 = objects r" "branches rc3 = branches r"
      "HEAD rc3 = OnBranch ''main''" "apps wc = apps w" "appBase wc = appBase w"
    by (auto simp: same_history_def)
  have tip3: "map_of (branches rc3) ''main'' = Some tip" and fresh3: "c \<notin> set (map fst (objects rc3))"
    using tip fresh rc3 by simp_all
  from git_commit_on_branch[OF cm rc3(1) rc3(4) tip3 fresh3] rc3 obtain obj r' where
    r': "git_repo w1 ?p = Inr r'" "objects r' = objects r @ [(c, obj)]"
      "branches r' = AList.update ''main'' c (branches r)" "HEAD r' = OnBranch ''main''"
      "c_parent obj = Some tip" "c_message obj = normalizeNewlines (''Reverted all changes back to version '' @ v)"
      "apps w1 = apps w" "appBase w1 = appBase w" "?p \<in> set (map fst (repos w1))"
    by auto
  have g': "git_repo ?w' ?p = Inr r'"
    using r'(1) by (simp add: git_repo_def revert_messages_frame)
  have app': "findApp ?w' appId = Some app" "getDyadAppPath ?w' (app_path app) = ?p"
    using app r'(7,8) by (simp_all add: findApp_def getDyadAppPath_def revert_messages_frame)
  have ex': "fs_existsSync ?w' (path_join ?p ''.git'')"
    using r'(9) by (intro repo_has_git_dir) (simp add: revert_messages_frame)
  have keep: "map_of (objects r') k = Some old" if "map_of (objects r) k = Some old" for k old
    using that by (simp add: r'(2) map_add_Some_iff)
  have newobj: "map_of (objects r') c = Some obj"
    using fresh by (simp add: r'(2) map_add_Some_iff map_of_eq_None_iff)
  have "log_walk 999 (objects r) tip = Inr (take 999 history)"
    using log_walk_take[OF hist, of 999] by simp
  from log_walk_extend[OF this fresh, of obj]
  have rest: "log_walk 999 (objects r') tip = Inr (take 999 history)"
    by (simp add: r'(2))
  have "log_walk 1000 (objects r') c = Inr ((c, obj) # take 999 history)"
    using newobj r'(5) rest by (simp add: log_walk_numeral)
  then have "git_log ?w' ?p 1000 = Inr ((c, obj) # take 999 history)"
    using g' r'(3,4) by (simp add: git_log_def resolve_head_def update_conv')
  with app' ex' have lv': "listVersionsService ?w' appId =
      Inr (toVersion (c, obj) # take 999 (map toVersion history))"
    by (simp add: listVersionsService_def take_map)
  have onmain: "listVersionsService w appId = Inr (map toVersion history) \<and>
           listVersionsService ?w' appId = Inr (toVersion (c, obj) # map toVersion history)"
    if h: "HEAD r = OnBranch ''main''" and len: "length history < 1000"
  proof -
    from repo have "?p \<in> set (map fst (repos w))"
      by (auto simp: git_repo_def split: option.splits dest: map_of_SomeD intro: rev_image_eqI)
    then have "fs_existsSync w (path_join ?p ''.git'')" by (rule repo_has_git_dir)
    moreover have "git_log w ?p 1000 = Inr history"
      using repo h tip hist by (simp add: git_log_def resolve_head_def)
    ultimately have "listVersionsService w appId = Inr (map toVersion history)"
      using app by (simp add: listVersionsService_def)
    with lv' len show ?thesis by simp
  qed
  from run g' r' keep lv' onmain show ?thesis by blast
qed



theorem revert_extends_history_witness:
  "findApp demo_world 1 = Some demo_app \<and>
   fst (revert_commit demo_world (getDyadAppPath demo_world (app_path demo_app)) ''c1'') = Inr ''rc2'' \<and>
   git_repo demo_world (getDyadAppPath demo_world (app_path demo_app)) = Inr demo_repo \<and>
   map_of (branches demo_repo) ''main'' = Some ''c2'' \<and>
   ''rc2'' \<notin> set (map fst (objects demo_repo)) \<and>
   log_walk 1000 (objects demo_repo) ''c2'' = Inr [(''c2'', c2), (''c1'', c1)] \<and>
   HEAD demo_repo = OnBranch ''main'' \<and>
   fst (revertVersionService demo_world 1 ''c1'') = Inr True \<and>
   listVersionsService demo_world 1 = Inr [toVersion (''c2'', c2), toVersion (''c1'', c1)] \<and>
   (\<exists>obj. c_parent obj = Some ''c2'' \<and>
      c_message obj = ''Reverted all changes back to version c1\<newline>'' \<and>
      listVersionsService (snd (revertVersionService demo_world 1 ''c1'')) 1 =
        Inr [toVersion (''rc2'', obj), toVersion (''c2'', c2), toVersion (''c1'', c1)])"
proof -
  let ?p = "getDyadAppPath demo_world (app_path demo_app)"
  let ?w1 = "snd (revert_commit demo_world ?p ''c1'')"
  have c: "fst (revert_commit demo_world ?p ''c1'') = Inr ''rc2''"
    by code_simp
  then have rc: "revert_commit demo_world ?p ''c1'' = (Inr ''rc2'', ?w1)"
    by (simp add: prod_eq_iff)
  have repo: "git_repo demo_world ?p = Inr demo_repo"
    by (simp add: demo_appPath) (simp add: git_repo_def demo_world_def)
  have tip: "map_of (branches demo_repo) ''main'' = Some ''c2''"
    and fresh: "''rc2'' \<notin> set (map fst (objects demo_repo))"
    and onmain: "HEAD demo_repo = OnBranch ''main''"
    by (simp_all add: demo_repo_def)
  have hist: "log_walk 1000 (objects demo_repo) ''c2'' = Inr [(''c2'', c2), (''c1'', c1)]"
    by (simp add: demo_repo_def log_walk_numeral c1_def c2_def)
  have msg: "normalizeNewlines (''Reverted all changes back to version '' @ ''c1'') =
      ''Reverted all changes back to version c1\<newline>''"
    by code_simp
  from revert_extends_history [OF demo_findApp rc repo tip fresh hist] onmain
  obtain obj where
    run: "revertVersionService demo_world 1 ''c1'' = (Inr True, revert_messages ?w1 ''c1'')" and
    obj: "c_parent obj = Some ''c2''" "c_message obj = ''Reverted all changes back to version c1\<newline>''" and
    lv: "listVersionsService demo_world 1 = Inr (map toVersion [(''c2'', c2), (''c1'', c1)])"
      "listVersionsService (revert_messages ?w1 ''c1'') 1 =
         Inr (toVersion (''rc2'', obj) # map toVersion [(''c2'', c2), (''c1'', c1)])"
    unfolding msg by auto
  from run have "fst (revertVersionService demo_world 1 ''c1'') = Inr True"
    "snd (revertVersionService demo_world 1 ''c1'') = revert_messages ?w1 ''c1''"
    by simp_all
  with demo_findApp c repo tip fresh hist onmain obj lv show ?thesis
    by auto
qed

subsection \<open>The loop over the status matrix\<close>















lemma git_repo_same_repos: "repos w' = repos w \<Longrightarrow> git_repo w' p = git_repo w p"
  by (simp add: git_repo_def)







subsection \<open>The matrix, the checkout before it and the staging after the loop\<close>

lemma status_row_fst: "map fst (map (status_row t idx wdf) ps) = ps"
  by (induction ps) (simp_all add: status_row_def)


text \<open>The rows are in the order of the walk: sorted by the segments of their paths.\<close>

lemma git_statusMatrix_sorted:
  assumes "git_statusMatrix w p v = Inr matrix"
  shows "sorted (map (\<lambda>row. splitOn CHR ''/'' (fst row)) matrix)"
proof -
  from assms obtain r where r: "git_repo w p = Inr r"
    by (auto simp: git_statusMatrix_def split: sum.splits)
  with assms obtain x where x: "read_commit r v = Inr x"
    by (auto simp: git_statusMatrix_def split: sum.splits)
  obtain c obj where co: "x = (c, obj)" by (cases x)
  from assms[symmetric] r x co have
    m: "matrix = map (status_row (c_tree obj) (index r) (\<lambda>fp. map_of (files w) (path_join p fp)))
                  (walk_order (map fst (c_tree obj) @ workdir_paths w p @ map fst (index r)))"
    by (simp add: git_statusMatrix_def)
  have "map fst matrix = walk_order (map fst (c_tree obj) @ workdir_paths w p @ map fst (index r))"
    unfolding m by (rule status_row_fst)
  then have "map (splitOn CHR ''/'') (map fst matrix) =
      map (splitOn CHR ''/'') (sort_key (splitOn CHR ''/'')
        (remdups (map fst (c_tree obj) @ workdir_paths w p @ map fst (index r))))"
    by (simp only: walk_order_def)
  then have "sorted (map (splitOn CHR ''/'') (map fst matrix))"
    by (simp only: sorted_sort_key)
  then show ?thesis by (simp add: comp_def)
qed















lemma replaced_revert_state:
  "files (snd (revertVersionService replaced_world 1 ''c1'')) =
     [(''/apps/demo/a.ts'', ''A1''), (''/apps/demo/src/lib/b.ts'', ''B1'')]"
  "dirs (snd (revertVersionService replaced_world 1 ''c1'')) =
     [''/apps/demo/src/lib'', ''/apps/demo/src'', ''/apps/demo'', ''/apps'', ''/'']"
  by code_simp+



end
